theory Spec2Isabelle
  imports Main
begin

section \<open>Values, dictionaries and errors\<close>

text \<open>
  The run state, the request bodies and the responses of the capability services are
  Python values that travel as JSON. Floats are left out: no code path of the engine
  computes with one (the audit timestamp is kept apart, see \<open>audit_entry\<close>).
  A \<open>dict\<close> is an association list in insertion order, as a Python dict is.
\<close>

datatype json =
    JNull
  | JBool bool
  | JInt int
  | JStr string
  | JList "json list"
  | JObj "(string \<times> json) list"

type_synonym dict = "(string \<times> json) list"

text \<open>\<open>d.get(k)\<close>: the value stored under the key, if any.\<close>

definition dict_get :: "dict \<Rightarrow> string \<Rightarrow> json option" where
  "dict_get d k = map_of d k"

text \<open>\<open>d.get(k)\<close> read as a Python value: a missing key gives \<open>None\<close>.\<close>

definition get_or_none :: "dict \<Rightarrow> string \<Rightarrow> json" where
  "get_or_none d k = (case dict_get d k of None \<Rightarrow> JNull | Some v \<Rightarrow> v)"

text \<open>\<open>d[k] = v\<close>: an existing key keeps its position, a new key goes to the end.\<close>

fun dict_set :: "dict \<Rightarrow> string \<Rightarrow> json \<Rightarrow> dict" where
  "dict_set [] k v = [(k, v)]"
| "dict_set ((k', v') # d) k v =
     (if k' = k then (k, v) # d else (k', v') # dict_set d k v)"

text \<open>\<open>d.update(src)\<close> for a mapping \<open>src\<close>.\<close>

fun dict_update :: "dict \<Rightarrow> dict \<Rightarrow> dict" where
  "dict_update d [] = d"
| "dict_update d ((k, v) # src) = dict_update (dict_set d k v) src"

text \<open>Python truthiness, as used by \<open>if x:\<close> and \<open>x or y\<close>.\<close>

fun truthy :: "json \<Rightarrow> bool" where
  "truthy JNull = False"
| "truthy (JBool b) = b"
| "truthy (JInt i) = (i \<noteq> 0)"
| "truthy (JStr s) = (s \<noteq> [])"
| "truthy (JList xs) = (xs \<noteq> [])"
| "truthy (JObj d) = (d \<noteq> [])"

text \<open>
  The exceptions that can cross the engine. \<open>RequestError\<close> stands for the httpx
  family \<open>httpx.RequestError\<close> (of which \<open>httpx.TransportError\<close> is a subclass), with
  its message; \<open>MCPClientError\<close> is the client's own exception class, with the two
  messages the source builds.
\<close>

datatype mcp_message = ServerError nat | RetriesExhausted

datatype error =
    RequestError string
  | MCPClientError mcp_message
  | JSONDecodeError
  | AttributeError
  | TypeError
  | ValueError
  | KeyError string

text \<open>\<open>len(x)\<close>: defined on strings, lists and dicts, a \<open>TypeError\<close> elsewhere.\<close>

fun py_len :: "json \<Rightarrow> error + nat" where
  "py_len (JStr s) = Inr (length s)"
| "py_len (JList xs) = Inr (length xs)"
| "py_len (JObj d) = Inr (length d)"
| "py_len _ = Inl TypeError"

text \<open>
  \<open>resp.get(k)\<close> on a decoded response: only a JSON object has \<open>get\<close>; on anything
  else Python raises \<open>AttributeError\<close>.
\<close>

fun resp_get :: "json \<Rightarrow> string \<Rightarrow> error + json option" where
  "resp_get (JObj d) k = Inr (dict_get d k)"
| "resp_get _ k = Inl AttributeError"

definition or_none :: "json option \<Rightarrow> json" where
  "or_none x = (case x of None \<Rightarrow> JNull | Some v \<Rightarrow> v)"

section \<open>Configuration, environment and effects\<close>

text \<open>
  What the engine reads but does not decide is an \<open>env\<close>: the settings
  (\<open>app/config.py\<close>), the network (what the n-th POST of the run meets), the random
  source, the clock, the database (whether the n-th commit succeeds) and the three
  Python string builtins the abilities use, whose definitions lie in the interpreter.
\<close>

datatype http_result =
    Raises string
  | Responds nat "json option"

record env =
  RETRY_ATTEMPTS :: int
  RETRY_WAIT_SECONDS :: int
  MCP_ATLAS_URL :: string
  post :: "nat \<Rightarrow> string \<Rightarrow> json \<Rightarrow> http_result"
  random_source :: "nat \<Rightarrow> nat"
  time_source :: "nat \<Rightarrow> nat"
  commit_ok :: "nat \<Rightarrow> bool"
  py_str :: "json \<Rightarrow> string"
  py_upper :: "string \<Rightarrow> string"
  py_split :: "string \<Rightarrow> string list"

text \<open>
  \<open>Responds status body\<close>: the POST returned; \<open>body\<close> is \<open>None\<close> when
  \<open>resp.json()\<close> cannot decode it. \<open>Raises m\<close>: the POST raised an
  \<open>httpx.RequestError\<close> (connection, timeout, protocol).

  What the engine does to the outside is recorded in a \<open>world\<close>: every POST sent, every
  back-off sleep, the draws and clock reads consumed, the handler invocations in order
  and how each of them ended (\<open>invoked\<close> and \<open>handled\<close>, two traces kept for the
  proofs; the source has no such lists), the loguru messages, and the persistence
  attempts and committed rows.
\<close>

section \<open>The decision record and the run state\<close>

record decision_dict =
  score :: "int option"
  escalated_to :: "json option"

text \<open>
  An audit entry holds \<open>state.get('decision', {})\<close> itself, not a copy: the dict under
  the key \<open>decision\<close> when the key is there, a new empty dict otherwise. The key is
  created once (\<open>setdefault\<close>) and never assigned again, so every entry taken while it
  is there refers to the one dict that the state holds, and shows what is written to it
  later.
\<close>

datatype decision_ref = Live | Detached

type_synonym audit_entry = "decision_ref \<times> nat"

text \<open>
  A dict filled by \<open>dict.update\<close> from a response value can get keys that are not
  strings; it is kept with JSON keys.
\<close>

type_synonym pydict = "(json \<times> json) list"

record state =
  payload :: dict
  parsed :: "dict option"
  entities :: "pydict option"
  enrichment :: "pydict option"
  flags :: "dict option"
  pending_clarification :: "dict option"
  answers :: "json list option"
  latest_answer :: "json option"
  kb :: "dict option"
  decision :: "decision_dict option"
  audit :: "audit_entry list option"
  generated_response :: "string option"

text \<open>
  The state is the dict \<open>{"payload": ...}\<close> that the abilities fill key by key; a key
  that is not there yet is \<open>None\<close>. \<open>decision\<close> is written by
  \<open>solution_evaluation\<close> (an int score) and \<open>escalation_decision\<close> only.
\<close>

datatype result = Res json | FinalPayload state

datatype log_entry =
    LStage string string
  | LAbility string
  | LMissing string
  | LRes result
  | LScore json
  | LEscalation result
  | LSkipEscalation
  | LFallback string result
  | LUnknownMode string
  | LError error

record run_record =
  ticket_id :: json
  input_payload :: dict
  result_payload :: state
  logs :: "log_entry list"

record world =
  posts :: "(string \<times> json) list"
  sleeps :: "int list"
  draws :: nat
  ticks :: nat
  invoked :: "string list"
  handled :: "(string \<times> error option \<times> state) list"
  loguru :: "(string \<times> string) list"
  db_attempts :: "run_record list"
  db_rows :: "run_record list"

definition logger :: "string \<Rightarrow> string \<Rightarrow> world \<Rightarrow> world" where
  "logger level msg w = w\<lparr>loguru := loguru w @ [(level, msg)]\<rparr>"

section \<open>The capability client (app/mcp/clients.py)\<close>

text \<open>
  \<open>wait_exponential(multiplier, min, max)\<close> of tenacity, at the attempt that has just
  failed: \<open>max(max(0, min), min(multiplier * 2 ** (attempt_number - 1), max))\<close>.
\<close>

definition wait_exponential :: "int \<Rightarrow> int \<Rightarrow> int \<Rightarrow> nat \<Rightarrow> int" where
  "wait_exponential multiplier mn mx attempt_number =
     max (max 0 mn) (min (multiplier * 2 ^ (attempt_number - 1)) mx)"

text \<open>
  The loop of \<open>BaseMCPClient.call\<close>: \<open>AsyncRetrying\<close> with
  \<open>stop_after_attempt(RETRY_ATTEMPTS)\<close>, the wait above, the retry predicate
  \<open>retry_if_exception_type((httpx.TransportError, httpx.RequestError))\<close> and
  \<open>reraise=True\<close>. An attempt that raises anything else leaves the loop with that
  exception; when the stop condition holds after a retryable failure, \<open>reraise=True\<close>
  raises the last attempt's own exception.
\<close>

function attempts :: "env \<Rightarrow> string \<Rightarrow> json \<Rightarrow> nat \<Rightarrow> world \<Rightarrow> (error + json) \<times> world" where
  "attempts e url body attempt_number w =
     (let w1 = logger ''DEBUG'' ''MCP call'' w;
          r = post e (length (posts w1)) url body;
          w2 = w1\<lparr>posts := posts w1 @ [(url, body)]\<rparr>
      in case r of
           Raises m \<Rightarrow>
             if RETRY_ATTEMPTS e \<le> int attempt_number then (Inl (RequestError m), w2)
             else attempts e url body (Suc attempt_number)
                    (w2\<lparr>sleeps := sleeps w2 @
                        [wait_exponential 1 (RETRY_WAIT_SECONDS e) 10 attempt_number]\<rparr>)
         | Responds status decoded \<Rightarrow>
             if 500 \<le> status then (Inl (MCPClientError (ServerError status)), w2)
             else (case decoded of
                     None \<Rightarrow> (Inl JSONDecodeError, w2)
                   | Some j \<Rightarrow> (Inr j, w2)))"
  by pat_completeness auto
termination
  by (relation "measure (\<lambda>(e, url, body, n, w). nat (RETRY_ATTEMPTS e - int n))") auto

declare attempts.simps [simp del]

text \<open>\<open>path or ability\<close>: the path when it is given and not empty.\<close>

definition path_or :: "string option \<Rightarrow> string \<Rightarrow> string" where
  "path_or path ability =
     (case path of None \<Rightarrow> ability | Some p \<Rightarrow> if p = [] then ability else p)"

definition call :: "env \<Rightarrow> string \<Rightarrow> string \<Rightarrow> json \<Rightarrow> string option \<Rightarrow> world
                     \<Rightarrow> (error + json) \<times> world" where
  "call e base_url ability body path w =
     attempts e (base_url @ ''/'' @ path_or path ability) body 1 w"

text \<open>The module's \<open>atlas_client\<close>, which every remote ability uses.\<close>

definition atlas_client :: "env \<Rightarrow> string \<Rightarrow> json \<Rightarrow> world \<Rightarrow> (error + json) \<times> world" where
  "atlas_client e ability body w = call e (MCP_ATLAS_URL e) ability body None w"


section \<open>The abilities (app/abilities/implementations.py)\<close>

text \<open>
  An ability takes the shared state and its keyword arguments and returns a result or
  raises; it may change the state before it raises, so the state comes back on both
  paths. The engine passes two keyword arguments at most.
\<close>

record kwargs =
  kw_input_payload :: "dict option"
  kw_simulate_human_answer :: "string option"

definition no_kwargs :: kwargs where
  "no_kwargs = \<lparr>kw_input_payload = None, kw_simulate_human_answer = None\<rparr>"

type_synonym outcome = "(error + result) \<times> state \<times> world"

type_synonym handler = "env \<Rightarrow> kwargs \<Rightarrow> state \<Rightarrow> world \<Rightarrow> outcome"

definition status_ok :: result where
  "status_ok = Res (JObj [(''status'', JStr ''ok'')])"

definition or_empty :: "dict option \<Rightarrow> dict" where
  "or_empty x = (case x of None \<Rightarrow> [] | Some d \<Rightarrow> d)"

definition or_empty_py :: "pydict option \<Rightarrow> pydict" where
  "or_empty_py x = (case x of None \<Rightarrow> [] | Some d \<Rightarrow> d)"

text \<open>
  \<open>d.update(x)\<close> with a value \<open>x\<close> taken from a response. A JSON object is a mapping
  and its items are stored. Any other value is iterated as a sequence of key/value
  pairs: each element must itself be a sequence (\<open>TypeError\<close> otherwise) of length two
  (\<open>ValueError\<close> otherwise) whose first member is hashable (\<open>TypeError\<close>
  otherwise); the pairs before the first bad element are stored. So the empty list
  and the empty string change nothing, a list of pairs is stored, a non-empty string
  raises \<open>ValueError\<close>, and \<open>None\<close>, a bool or an int raises \<open>TypeError\<close>.
  Keys are compared as Python compares them: \<open>True\<close> and \<open>1\<close> are one key, and a
  key that is already there keeps its place and its first spelling.
\<close>

fun hashable :: "json \<Rightarrow> bool" where
  "hashable (JList xs) = False"
| "hashable (JObj d) = False"
| "hashable _ = True"

fun key_norm :: "json \<Rightarrow> json" where
  "key_norm (JBool b) = JInt (if b then 1 else 0)"
| "key_norm k = k"

fun py_setitem :: "pydict \<Rightarrow> json \<Rightarrow> json \<Rightarrow> pydict" where
  "py_setitem [] k v = [(k, v)]"
| "py_setitem ((k', v') # d) k v =
     (if key_norm k' = key_norm k then (k', v) # d else (k', v') # py_setitem d k v)"

text \<open>Iterating a value: the members of a list, the characters of a string, the keys of a dict.\<close>

fun py_iter :: "json \<Rightarrow> error + json list" where
  "py_iter (JList xs) = Inr xs"
| "py_iter (JStr s) = Inr (map (\<lambda>c. JStr [c]) s)"
| "py_iter (JObj d) = Inr (map (\<lambda>kv. JStr (fst kv)) d)"
| "py_iter _ = Inl TypeError"

definition as_pair :: "json \<Rightarrow> error + json \<times> json" where
  "as_pair x =
     (case py_iter x of
        Inl err \<Rightarrow> Inl TypeError
      | Inr ys \<Rightarrow> (case ys of [k, v] \<Rightarrow> Inr (k, v) | _ \<Rightarrow> Inl ValueError))"

fun update_pairs :: "pydict \<Rightarrow> json list \<Rightarrow> error option \<times> pydict" where
  "update_pairs d [] = (None, d)"
| "update_pairs d (x # xs) =
     (case as_pair x of
        Inl err \<Rightarrow> (Some err, d)
      | Inr (k, v) \<Rightarrow>
          if hashable k then update_pairs (py_setitem d k v) xs else (Some TypeError, d))"

fun update_items :: "pydict \<Rightarrow> dict \<Rightarrow> pydict" where
  "update_items d [] = d"
| "update_items d ((k, v) # src) = update_items (py_setitem d (JStr k) v) src"

definition py_update :: "pydict \<Rightarrow> json \<Rightarrow> error option \<times> pydict" where
  "py_update d x =
     (case x of
        JObj src \<Rightarrow> (None, update_items d src)
      | _ \<Rightarrow> (case py_iter x of
                Inl err \<Rightarrow> (Some err, d)
              | Inr xs \<Rightarrow> update_pairs d xs))"

definition accept_payload :: handler where
  "accept_payload e kw st w =
     (let inp = or_empty (kw_input_payload kw);
          st1 = st\<lparr>payload := dict_update (payload st) inp\<rparr>
      in (Inr status_ok, st1, logger ''INFO'' ''accept_payload recorded'' w))"

definition parse_request_text :: handler where
  "parse_request_text e kw st w =
     (case (case dict_get (payload st) ''query'' of None \<Rightarrow> JStr [] | Some v \<Rightarrow> v) of
        JStr q \<Rightarrow>
          (let p = [(''len'', JInt (int (length q))), (''words'', JList (map JStr (py_split e q)))];
               st1 = st\<lparr>parsed := Some (dict_update (or_empty (parsed st)) p)\<rparr>
           in (Inr (Res (JObj [(''status'', JStr ''ok''), (''parsed'', JObj p)])), st1,
               logger ''DEBUG'' ''parse_request_text'' w))
      | JList xs \<Rightarrow> (Inl AttributeError, st, w)
      | JObj d \<Rightarrow> (Inl AttributeError, st, w)
      | _ \<Rightarrow> (Inl TypeError, st, w))"

definition extract_entities :: handler where
  "extract_entities e kw st w =
     (case atlas_client e ''extract_entities'' (JObj (payload st)) w of
        (Inl err, w1) \<Rightarrow> (Inl err, st, w1)
      | (Inr resp, w1) \<Rightarrow>
          (case resp_get resp ''entities'' of
             Inl err \<Rightarrow> (Inl err, st, w1)
           | Inr found \<Rightarrow>
               (let ents = (case found of None \<Rightarrow> JObj [] | Some v \<Rightarrow> v)
                in case py_update (or_empty_py (entities st)) ents of
                     (Some err, d) \<Rightarrow> (Inl err, st\<lparr>entities := Some d\<rparr>, w1)
                   | (None, d) \<Rightarrow>
                       (Inr (Res (JObj [(''status'', JStr ''ok''), (''entities'', ents)])),
                        st\<lparr>entities := Some d\<rparr>,
                        logger ''DEBUG'' ''extract_entities'' w1))))"

definition normalize_fields :: handler where
  "normalize_fields e kw st w =
     (let p = payload st;
          pr = (if truthy (get_or_none p ''priority'') then get_or_none p ''priority''
                else JStr ''NORMAL'')
      in case pr of
           JStr s \<Rightarrow>
             (let p1 = dict_set p ''priority'' (JStr (py_upper e s));
                  p2 = (if truthy (get_or_none p1 ''ticket_id'')
                        then dict_set p1 ''ticket_id''
                               (JStr (py_upper e (py_str e (get_or_none p1 ''ticket_id''))))
                        else p1)
              in (Inr status_ok, st\<lparr>payload := p2\<rparr>, logger ''DEBUG'' ''normalize_fields'' w))
         | _ \<Rightarrow> (Inl AttributeError, st, w))"

definition enrich_records :: handler where
  "enrich_records e kw st w =
     (case atlas_client e ''enrich_records'' (JObj (payload st)) w of
        (Inl err, w1) \<Rightarrow> (Inl err, st, w1)
      | (Inr resp, w1) \<Rightarrow>
          (case resp_get resp ''enrichment'' of
             Inl err \<Rightarrow> (Inl err, st\<lparr>enrichment := Some (or_empty_py (enrichment st))\<rparr>, w1)
           | Inr found \<Rightarrow>
               (case py_update (or_empty_py (enrichment st))
                       (case found of None \<Rightarrow> JObj [] | Some v \<Rightarrow> v) of
                  (Some err, d) \<Rightarrow> (Inl err, st\<lparr>enrichment := Some d\<rparr>, w1)
                | (None, d) \<Rightarrow>
                    (Inr status_ok, st\<lparr>enrichment := Some d\<rparr>,
                     logger ''DEBUG'' ''enrich_records'' w1))))"

definition add_flags_calculations :: handler where
  "add_flags_calculations e kw st w =
     (let priority = (case dict_get (payload st) ''priority'' of
                        None \<Rightarrow> JStr ''NORMAL'' | Some v \<Rightarrow> v);
          st1 = st\<lparr>flags := Some (dict_set (or_empty (flags st)) ''sla_risk''
                                     (JBool (priority = JStr ''HIGH'')))\<rparr>
      in (Inr status_ok, st1, logger ''DEBUG'' ''flags'' w))"

definition clarify_question :: handler where
  "clarify_question e kw st w =
     (case atlas_client e ''clarify_question''
             (JObj (dict_update [(''missing_fields'', JList [])] (payload st))) w of
        (Inl err, w1) \<Rightarrow> (Inl err, st, w1)
      | (Inr resp, w1) \<Rightarrow>
          (case resp_get resp ''prompt'' of
             Inl err \<Rightarrow> (Inl err, st, w1)
           | Inr found \<Rightarrow>
               (Inr (Res (JObj [(''status'', JStr ''ok''), (''prompt'', or_none found)])),
                st\<lparr>pending_clarification :=
                     Some (dict_set (or_empty (pending_clarification st)) ''prompt''
                             (or_none found))\<rparr>,
                logger ''INFO'' ''clarify_question prompt created'' w1)))"

text \<open>
  \<open>if simulated:\<close> is Python truthiness: \<open>None\<close> and the empty string both take the
  \<open>else\<close> branch. In \<open>state.setdefault('answers', []).append(resp.get('answer'))\<close> the
  list is created before the argument is evaluated.
\<close>

definition extract_answer :: handler where
  "extract_answer e kw st w =
     (case (case kw_simulate_human_answer kw of
              None \<Rightarrow> atlas_client e ''extract_answer'' (JObj (payload st)) w
            | Some simulated \<Rightarrow>
                if simulated \<noteq> [] then (Inr (JObj [(''answer'', JStr simulated)]), w)
                else atlas_client e ''extract_answer'' (JObj (payload st)) w) of
        (Inl err, w1) \<Rightarrow> (Inl err, st, w1)
      | (Inr resp, w1) \<Rightarrow>
          (let old = (case answers st of None \<Rightarrow> [] | Some xs \<Rightarrow> xs);
               st1 = st\<lparr>answers := Some old\<rparr>
           in case resp_get resp ''answer'' of
                Inl err \<Rightarrow> (Inl err, st1, w1)
              | Inr found \<Rightarrow>
                  (Inr (Res (JObj [(''status'', JStr ''ok''), (''answer'', or_none found)])),
                   st\<lparr>answers := Some (old @ [or_none found])\<rparr>,
                   logger ''INFO'' ''extract_answer captured'' w1)))"

definition store_answer :: handler where
  "store_answer e kw st w =
     (let xs = (case answers st of None \<Rightarrow> [] | Some ys \<Rightarrow> ys);
          st1 = st\<lparr>latest_answer := Some (if xs \<noteq> [] then last xs else JNull)\<rparr>
      in (Inr status_ok, st1, logger ''DEBUG'' ''store_answer'' w))"

definition knowledge_base_search :: handler where
  "knowledge_base_search e kw st w =
     (case atlas_client e ''knowledge_base_search''
             (JObj [(''query'', get_or_none (payload st) ''query'')]) w of
        (Inl err, w1) \<Rightarrow> (Inl err, st, w1)
      | (Inr resp, w1) \<Rightarrow>
          (case resp_get resp ''kb_hits'' of
             Inl err \<Rightarrow> (Inl err, st, w1)
           | Inr found \<Rightarrow>
               (Inr status_ok,
                st\<lparr>kb := Some (dict_set (or_empty (kb st)) ''hits''
                                 (case found of None \<Rightarrow> JList [] | Some v \<Rightarrow> v))\<rparr>,
                w1)))"

definition store_data :: handler where
  "store_data e kw st w = (Inr status_ok, st, logger ''DEBUG'' ''store_data stored to state.kb'' w)"

text \<open>
  \<open>random.randint(a, b)\<close> returns an integer of the closed range; the draw is the next
  value of the environment's random source, reduced to the range.
\<close>

definition randint :: "env \<Rightarrow> int \<Rightarrow> int \<Rightarrow> world \<Rightarrow> int \<times> world" where
  "randint e a b w =
     (a + int (random_source e (draws w) mod nat (b - a + 1)), w\<lparr>draws := Suc (draws w)\<rparr>)"

text \<open>\<open>state.get('kb', {}).get('hits', [])\<close>\<close>

definition kb_hits_of :: "state \<Rightarrow> json" where
  "kb_hits_of st =
     (case dict_get (or_empty (kb st)) ''hits'' of None \<Rightarrow> JList [] | Some v \<Rightarrow> v)"

text \<open>\<open>state.get('decision', {})\<close> and \<open>state.get('decision', {}).get('score', dflt)\<close>\<close>

definition decision_of :: "state \<Rightarrow> decision_dict" where
  "decision_of st =
     (case decision st of None \<Rightarrow> \<lparr>score = None, escalated_to = None\<rparr> | Some d \<Rightarrow> d)"

definition score_of :: "state \<Rightarrow> int \<Rightarrow> int" where
  "score_of st dflt = (case score (decision_of st) of None \<Rightarrow> dflt | Some s \<Rightarrow> s)"

definition solution_evaluation :: handler where
  "solution_evaluation e kw st w =
     (case py_len (kb_hits_of st) of
        Inl err \<Rightarrow> (Inl err, st, w)
      | Inr kb_hits \<Rightarrow>
          (let base0 = 70 + min 20 (int kb_hits * 10);
               base = (if dict_get (payload st) ''priority'' = Some (JStr ''HIGH'')
                       then base0 - 10 else base0);
               (jitter, w1) = randint e (- 3) 3 w;
               sc = max 0 (min 100 (base + jitter));
               st1 = st\<lparr>decision := Some ((decision_of st)\<lparr>score := Some sc\<rparr>)\<rparr>
           in (Inr (Res (JObj [(''score'', JInt sc)])), st1,
               logger ''INFO'' ''solution_evaluation'' w1)))"

definition escalation_decision :: handler where
  "escalation_decision e kw st w =
     (if score_of st 100 < 90 then
        (case atlas_client e ''escalation_decision'' (JObj (payload st)) w of
           (Inl err, w1) \<Rightarrow> (Inl err, st, w1)
         | (Inr resp, w1) \<Rightarrow>
             (case resp_get resp ''assigned_to'' of
                Inl err \<Rightarrow> (Inl err, st, w1)
              | Inr found \<Rightarrow>
                  (case decision st of
                     None \<Rightarrow> (Inl (KeyError ''decision''), st, w1)
                   | Some d \<Rightarrow>
                       (Inr (Res (JObj [(''status'', JStr ''escalated''),
                                        (''assigned_to'', or_none found)])),
                        st\<lparr>decision := Some (d\<lparr>escalated_to := Some (or_none found)\<rparr>)\<rparr>,
                        w1))))
      else (Inr (Res (JObj [(''status'', JStr ''not_escalated'')])), st, w))"

text \<open>
  The audit entry holds the decision dict itself (see \<open>decision_ref\<close>) and
  \<open>time.time()\<close>, here the next reading of the environment's clock.
\<close>

definition update_payload :: handler where
  "update_payload e kw st w =
     (let old = (case audit st of None \<Rightarrow> [] | Some xs \<Rightarrow> xs);
          ts = time_source e (ticks w)
      in (Inr status_ok,
          st\<lparr>audit := Some (old @ [(case decision st of None \<Rightarrow> Detached | Some d \<Rightarrow> Live, ts)])\<rparr>,
          w\<lparr>ticks := Suc (ticks w)\<rparr>))"

text \<open>The audit list as it reads in a given state.\<close>

definition audit_view :: "state \<Rightarrow> (decision_dict \<times> nat) list" where
  "audit_view st =
     map (\<lambda>entry. (case fst entry of
                      Live \<Rightarrow> decision_of st
                    | Detached \<Rightarrow> \<lparr>score = None, escalated_to = None\<rparr>,
                    snd entry))
       (case audit st of None \<Rightarrow> [] | Some xs \<Rightarrow> xs)"

definition update_fields_of :: "state \<Rightarrow> json" where
  "update_fields_of st =
     JObj [(''status'', JStr ''in_progress''),
           (''priority'', get_or_none (payload st) ''priority''),
           (''assigned_to'', or_none (escalated_to (decision_of st)))]"

definition update_ticket :: handler where
  "update_ticket e kw st w =
     (case atlas_client e ''update_ticket''
             (JObj [(''ticket_id'', get_or_none (payload st) ''ticket_id''),
                    (''update_fields'', update_fields_of st)]) w of
        (Inl err, w1) \<Rightarrow> (Inl err, st, w1)
      | (Inr resp, w1) \<Rightarrow> (Inr (Res resp), st, w1))"

definition close_ticket :: handler where
  "close_ticket e kw st w =
     (if 90 \<le> score_of st 0 then
        (case atlas_client e ''close_ticket''
                (JObj [(''ticket_id'', get_or_none (payload st) ''ticket_id'')]) w of
           (Inl err, w1) \<Rightarrow> (Inl err, st, w1)
         | (Inr resp, w1) \<Rightarrow>
             (Inr (Res resp),
              st\<lparr>payload := dict_set (payload st) ''status'' (JStr ''closed'')\<rparr>, w1))
      else (Inr (Res (JObj [(''status'', JStr ''not_closed'')])), st, w))"

definition response_generation :: handler where
  "response_generation e kw st w =
     (let nm = (if truthy (get_or_none (payload st) ''customer_name'')
                then get_or_none (payload st) ''customer_name'' else JStr ''Customer'');
          reply = ''Hi '' @ py_str e nm @ '','' @ [CHR 0x0A, CHR 0x0A]
                  @ ''Thanks for contacting support about: ''
                  @ py_str e (get_or_none (payload st) ''query'') @ [CHR 0x0A, CHR 0x0A]
                  @ ''Regards,'' @ [CHR 0x0A] @ ''Support Team''
      in (Inr (Res (JObj [(''response'', JStr reply)])),
          st\<lparr>generated_response := Some reply\<rparr>, w))"

definition execute_api_calls :: handler where
  "execute_api_calls e kw st w =
     (case atlas_client e ''execute_api_calls'' (JObj (payload st)) w of
        (Inl err, w1) \<Rightarrow> (Inl err, st, w1)
      | (Inr resp, w1) \<Rightarrow> (Inr (Res resp), st, w1))"

definition trigger_notifications :: handler where
  "trigger_notifications e kw st w =
     (case atlas_client e ''trigger_notifications'' (JObj (payload st)) w of
        (Inl err, w1) \<Rightarrow> (Inl err, st, w1)
      | (Inr resp, w1) \<Rightarrow> (Inr (Res resp), st, w1))"

definition output_payload :: handler where
  "output_payload e kw st w = (Inr (FinalPayload st), st, w)"


section \<open>The stage graph and the engine (app/agent)\<close>

record StageAbility =
  name :: string
  mcp :: string
  prompt :: string

record Stage =
  stage_name :: string
  mode :: string
  abilities :: "StageAbility list"
  exec_rule :: "string option"

definition ability :: "string \<Rightarrow> string \<Rightarrow> string \<Rightarrow> StageAbility" where
  "ability n m p = \<lparr>name = n, mcp = m, prompt = p\<rparr>"

definition stage :: "string \<Rightarrow> string \<Rightarrow> StageAbility list \<Rightarrow> string option \<Rightarrow> Stage" where
  "stage n m xs r = \<lparr>stage_name = n, mode = m, abilities = xs, exec_rule = r\<rparr>"

definition STAGE_CONFIG :: "Stage list" where
  "STAGE_CONFIG =
     [stage ''INTAKE'' ''deterministic''
        [ability ''accept_payload'' ''COMMON'' ''Accept payload''] None,
      stage ''UNDERSTAND'' ''deterministic''
        [ability ''parse_request_text'' ''COMMON'' ''Parse text'',
         ability ''extract_entities'' ''ATLAS'' ''Extract entities''] None,
      stage ''PREPARE'' ''deterministic''
        [ability ''normalize_fields'' ''COMMON'' ''Normalize'',
         ability ''enrich_records'' ''ATLAS'' ''Enrich'',
         ability ''add_flags_calculations'' ''COMMON'' ''Flags''] None,
      stage ''ASK'' ''human''
        [ability ''clarify_question'' ''ATLAS'' ''Clarify''] None,
      stage ''WAIT'' ''deterministic''
        [ability ''extract_answer'' ''ATLAS'' ''Extract answer'',
         ability ''store_answer'' ''COMMON'' ''Store answer''] None,
      stage ''RETRIEVE'' ''deterministic''
        [ability ''knowledge_base_search'' ''ATLAS'' ''KB search'',
         ability ''store_data'' ''COMMON'' ''Store KB''] None,
      stage ''DECIDE'' ''non-deterministic''
        [ability ''solution_evaluation'' ''COMMON'' ''Score solutions'',
         ability ''escalation_decision'' ''ATLAS'' ''Escalate if needed'',
         ability ''update_payload'' ''COMMON'' ''Record decision'']
        (Some ''score_then_maybe_escalate''),
      stage ''UPDATE'' ''deterministic''
        [ability ''update_ticket'' ''ATLAS'' ''Update ticket'',
         ability ''close_ticket'' ''ATLAS'' ''Close ticket''] None,
      stage ''CREATE'' ''deterministic''
        [ability ''response_generation'' ''COMMON'' ''Generate reply''] None,
      stage ''DO'' ''deterministic''
        [ability ''execute_api_calls'' ''ATLAS'' ''Execute APIs'',
         ability ''trigger_notifications'' ''ATLAS'' ''Notify''] None,
      stage ''COMPLETE'' ''deterministic''
        [ability ''output_payload'' ''COMMON'' ''Output payload''] None]"

definition ABILITY_LOOKUP :: "string \<Rightarrow> handler option" where
  "ABILITY_LOOKUP =
     map_of
       [(''accept_payload'', accept_payload),
        (''parse_request_text'', parse_request_text),
        (''extract_entities'', extract_entities),
        (''normalize_fields'', normalize_fields),
        (''enrich_records'', enrich_records),
        (''add_flags_calculations'', add_flags_calculations),
        (''clarify_question'', clarify_question),
        (''extract_answer'', extract_answer),
        (''store_answer'', store_answer),
        (''knowledge_base_search'', knowledge_base_search),
        (''store_data'', store_data),
        (''solution_evaluation'', solution_evaluation),
        (''escalation_decision'', escalation_decision),
        (''update_payload'', update_payload),
        (''update_ticket'', update_ticket),
        (''close_ticket'', close_ticket),
        (''response_generation'', response_generation),
        (''execute_api_calls'', execute_api_calls),
        (''trigger_notifications'', trigger_notifications),
        (''output_payload'', output_payload)]"

text \<open>
  \<open>await fn(state, **extra)\<close>: the call of a handler. The name goes to the trace of
  invocations before the handler runs; how the call ended (the exception, if any, and
  the state it left) goes to the trace \<open>handled\<close> after it.
\<close>

definition err_of :: "error + result \<Rightarrow> error option" where
  "err_of x = (case x of Inl err \<Rightarrow> Some err | Inr res \<Rightarrow> None)"

definition invoke :: "string \<Rightarrow> handler \<Rightarrow> handler" where
  "invoke nm fn e kw st w =
     (case fn e kw st (w\<lparr>invoked := invoked w @ [nm]\<rparr>) of
        (x, st1, w1) \<Rightarrow> (x, st1, w1\<lparr>handled := handled w1 @ [(nm, err_of x, st1)]\<rparr>))"

text \<open>
  The loops of \<open>LangGraphAgent.run\<close> return the exception that left them, if any, with
  the state, the log and the world as they were when it was raised.
\<close>

type_synonym progress = "error option \<times> state \<times> log_entry list \<times> world"

text \<open>The keyword arguments of the deterministic and human branch (agent.py, 92 to 96).\<close>

definition extra_for :: "string \<Rightarrow> dict \<Rightarrow> string option \<Rightarrow> kwargs" where
  "extra_for nm inp simulate_human_answer =
     \<lparr>kw_input_payload = (if nm = ''accept_payload'' then Some inp else None),
      kw_simulate_human_answer =
        (if nm = ''extract_answer'' then simulate_human_answer else None)\<rparr>"

fun run_sequential :: "env \<Rightarrow> dict \<Rightarrow> string option \<Rightarrow> StageAbility list
                        \<Rightarrow> state \<Rightarrow> log_entry list \<Rightarrow> world \<Rightarrow> progress" where
  "run_sequential e inp sim [] st lg w = (None, st, lg, w)"
| "run_sequential e inp sim (a # rest) st lg w =
     (case ABILITY_LOOKUP (name a) of
        None \<Rightarrow>
          run_sequential e inp sim rest st (lg @ [LAbility (name a), LMissing (name a)]) w
      | Some fn \<Rightarrow>
          (case invoke (name a) fn e (extra_for (name a) inp sim) st w of
             (Inl err, st1, w1) \<Rightarrow> (Some err, st1, lg @ [LAbility (name a)], w1)
           | (Inr res, st1, w1) \<Rightarrow>
               run_sequential e inp sim rest st1 (lg @ [LAbility (name a), LRes res]) w1))"

text \<open>\<open>res.get('score')\<close> on the scoring ability's result.\<close>

fun result_get :: "result \<Rightarrow> string \<Rightarrow> error + json" where
  "result_get (Res (JObj d)) k = Inr (get_or_none d k)"
| "result_get (Res _) k = Inl AttributeError"
| "result_get (FinalPayload st) k = Inr JNull"

text \<open>
  The fixed protocol of a non-deterministic stage with the rule
  \<open>score_then_maybe_escalate\<close> (agent.py, 100 to 110). \<open>ABILITY_LOOKUP\<close> is a constant
  of the module, so its three subscripts are the three handlers.
\<close>

definition record_decision :: "env \<Rightarrow> state \<Rightarrow> log_entry list \<Rightarrow> world \<Rightarrow> progress" where
  "record_decision e st lg w =
     (case invoke ''update_payload'' update_payload e no_kwargs st w of
        (Inl err, st1, w1) \<Rightarrow> (Some err, st1, lg, w1)
      | (Inr res, st1, w1) \<Rightarrow> (None, st1, lg, w1))"

definition score_then_maybe_escalate :: "env \<Rightarrow> state \<Rightarrow> log_entry list \<Rightarrow> world \<Rightarrow> progress" where
  "score_then_maybe_escalate e st lg w =
     (case invoke ''solution_evaluation'' solution_evaluation e no_kwargs st w of
        (Inl err, st1, w1) \<Rightarrow> (Some err, st1, lg, w1)
      | (Inr res, st1, w1) \<Rightarrow>
          (case result_get res ''score'' of
             Inl err \<Rightarrow> (Some err, st1, lg, w1)
           | Inr shown \<Rightarrow>
               (let lg1 = lg @ [LScore shown] in
                if score_of st1 100 < 90 then
                  (case invoke ''escalation_decision'' escalation_decision e no_kwargs st1 w1 of
                     (Inl err, st2, w2) \<Rightarrow> (Some err, st2, lg1, w2)
                   | (Inr res2, st2, w2) \<Rightarrow>
                       record_decision e st2 (lg1 @ [LEscalation res2]) w2)
                else record_decision e st1 (lg1 @ [LSkipEscalation]) w1)))"

text \<open>Any other rule: the declared abilities in order, an unknown name passed over.\<close>

fun run_fallback :: "env \<Rightarrow> StageAbility list \<Rightarrow> state \<Rightarrow> log_entry list \<Rightarrow> world \<Rightarrow> progress" where
  "run_fallback e [] st lg w = (None, st, lg, w)"
| "run_fallback e (a # rest) st lg w =
     (case ABILITY_LOOKUP (name a) of
        None \<Rightarrow> run_fallback e rest st lg w
      | Some fn \<Rightarrow>
          (case invoke (name a) fn e no_kwargs st w of
             (Inl err, st1, w1) \<Rightarrow> (Some err, st1, lg, w1)
           | (Inr res, st1, w1) \<Rightarrow>
               run_fallback e rest st1 (lg @ [LFallback (name a) res]) w1))"

definition run_stage :: "env \<Rightarrow> dict \<Rightarrow> string option \<Rightarrow> Stage
                          \<Rightarrow> state \<Rightarrow> log_entry list \<Rightarrow> world \<Rightarrow> progress" where
  "run_stage e inp sim s st lg w =
     (let lg1 = lg @ [LStage (stage_name s) (mode s)];
          w1 = logger ''INFO'' (''stage: '' @ stage_name s @ '' mode='' @ mode s) w
      in if mode s = ''deterministic'' \<or> mode s = ''human''
         then run_sequential e inp sim (abilities s) st lg1 w1
         else if mode s = ''non-deterministic''
         then (if exec_rule s = Some ''score_then_maybe_escalate''
               then score_then_maybe_escalate e st lg1 w1
               else run_fallback e (abilities s) st lg1 w1)
         else (None, st, lg1 @ [LUnknownMode (mode s)], w1))"

fun run_stages :: "env \<Rightarrow> dict \<Rightarrow> string option \<Rightarrow> Stage list
                    \<Rightarrow> state \<Rightarrow> log_entry list \<Rightarrow> world \<Rightarrow> progress" where
  "run_stages e inp sim [] st lg w = (None, st, lg, w)"
| "run_stages e inp sim (s # rest) st lg w =
     (case run_stage e inp sim s st lg w of
        (Some err, st1, lg1, w1) \<Rightarrow> (Some err, st1, lg1, w1)
      | (None, st1, lg1, w1) \<Rightarrow> run_stages e inp sim rest st1 lg1 w1)"

text \<open>
  \<open>_persist_run\<close>: whatever goes wrong inside its \<open>try\<close> is caught and logged. The
  attempt is recorded with the record it was given; the row is there when the commit
  succeeded.
\<close>

definition persist_run :: "env \<Rightarrow> dict \<Rightarrow> state \<Rightarrow> log_entry list \<Rightarrow> world \<Rightarrow> world" where
  "persist_run e inp final lg w =
     (let row = \<lparr>ticket_id = get_or_none inp ''ticket_id'', input_payload = inp,
                 result_payload = final, logs = lg\<rparr>;
          w1 = w\<lparr>db_attempts := db_attempts w @ [row]\<rparr>
      in if commit_ok e (length (db_attempts w))
         then w1\<lparr>db_rows := db_rows w1 @ [row]\<rparr>
         else logger ''ERROR'' ''failed to persist run (non-fatal)'' w1)"

definition initial_state :: "dict \<Rightarrow> state" where
  "initial_state inp =
     \<lparr>payload = inp, parsed = None, entities = None, enrichment = None, flags = None,
      pending_clarification = None, answers = None, latest_answer = None, kb = None,
      decision = None, audit = None, generated_response = None\<rparr>"

text \<open>\<open>self.stages = stages or STAGE_CONFIG\<close>\<close>

definition LangGraphAgent :: "Stage list option \<Rightarrow> Stage list" where
  "LangGraphAgent given =
     (case given of None \<Rightarrow> STAGE_CONFIG | Some ss \<Rightarrow> if ss = [] then STAGE_CONFIG else ss)"

definition run :: "env \<Rightarrow> Stage list \<Rightarrow> dict \<Rightarrow> string option \<Rightarrow> world
                    \<Rightarrow> (error + state \<times> log_entry list) \<times> world" where
  "run e stages inp sim w =
     (case run_stages e inp sim stages (initial_state inp) [] w of
        (None, final, lg, w1) \<Rightarrow> (Inr (final, lg), persist_run e inp final lg w1)
      | (Some err, st, lg, w1) \<Rightarrow>
          (Inl err,
           persist_run e inp st (lg @ [LError err]) (logger ''ERROR'' ''agent run failed'' w1)))"

section \<open>Concrete environments\<close>

definition world0 :: world where
  "world0 = \<lparr>posts = [], sleeps = [], draws = 0, ticks = 0, invoked = [], handled = [],
              loguru = [], db_attempts = [], db_rows = []\<rparr>"

definition test_env :: "(nat \<Rightarrow> string \<Rightarrow> json \<Rightarrow> http_result) \<Rightarrow> env" where
  "test_env net =
     \<lparr>RETRY_ATTEMPTS = 3, RETRY_WAIT_SECONDS = 1, MCP_ATLAS_URL = ''http://atlas'',
      post = net, random_source = (\<lambda>n. 3), time_source = (\<lambda>n. n), commit_ok = (\<lambda>n. True),
      py_str = (\<lambda>j. case j of JStr s \<Rightarrow> s | _ \<Rightarrow> []), py_upper = (\<lambda>s. s),
      py_split = (\<lambda>s. [s])\<rparr>"

definition net_ok :: "nat \<Rightarrow> string \<Rightarrow> json \<Rightarrow> http_result" where
  "net_ok n url body = Responds 200 (Some (JObj [(''assigned_to'', JStr ''agent-7'')]))"

definition net_down :: "nat \<Rightarrow> string \<Rightarrow> json \<Rightarrow> http_result" where
  "net_down n url body = Raises ''connection refused''"



definition net_flaky :: "nat \<Rightarrow> string \<Rightarrow> json \<Rightarrow> http_result" where
  "net_flaky n url body =
     (if n = 0 then Raises ''timeout''
      else Responds 200 (Some (JObj [(''answer'', JStr ''second'')])))"


definition scored_state :: "int \<Rightarrow> state" where
  "scored_state s =
     (initial_state [(''ticket_id'', JStr ''TCKT-1''), (''priority'', JStr ''HIGH'')])
       \<lparr>kb := Some [(''hits'', JList [JStr ''kb-1''])],
        decision := Some \<lparr>score = Some s, escalated_to = None\<rparr>\<rparr>"

section \<open>A property of handlers\<close>

text \<open>
  A handler keeps to its frame when it leaves the two traces and the database alone
  and does not look at the database's answers.
\<close>

definition keeps_frame :: "handler \<Rightarrow> bool" where
  "keeps_frame fn =
     (\<forall>e kw st w c.
        invoked (snd (snd (fn e kw st w))) = invoked w
      \<and> handled (snd (snd (fn e kw st w))) = handled w
      \<and> db_attempts (snd (snd (fn e kw st w))) = db_attempts w
      \<and> db_rows (snd (snd (fn e kw st w))) = db_rows w
      \<and> fn (e\<lparr>commit_ok := c\<rparr>) kw st w = fn e kw st w)"

text \<open>The declared abilities that have a handler, in declared order.\<close>

definition resolved :: "StageAbility list \<Rightarrow> StageAbility list" where
  "resolved xs =
     filter (\<lambda>a. case ABILITY_LOOKUP (name a) of None \<Rightarrow> False | Some fn \<Rightarrow> True) xs"

text \<open>A stage as it is without the references that have no handler.\<close>

definition resolve_stage :: "Stage \<Rightarrow> Stage" where
  "resolve_stage s =
     (if mode s = ''deterministic'' \<or> mode s = ''human''
      then s\<lparr>abilities := resolved (abilities s)\<rparr> else s)"

text \<open>What a loop of the engine leaves behind, the log apart.\<close>

definition outcome_of :: "progress \<Rightarrow> error option \<times> state \<times> world" where
  "outcome_of p = (case p of (r, st, lg, w) \<Rightarrow> (r, st, w))"


definition ticket_payload :: dict where
  "ticket_payload = [(''query'', JStr ''invoice INV-9876 is delayed''),
                     (''priority'', JStr ''high''), (''ticket_id'', JStr ''tckt-1'')]"

definition stages_with_unknown :: "Stage list" where
  "stages_with_unknown =
     [stage ''PREPARE'' ''deterministic''
        [ability ''normalize_fields'' ''COMMON'' ''Normalize'',
         ability ''no_such_ability'' ''ATLAS'' ''Unknown'',
         ability ''add_flags_calculations'' ''COMMON'' ''Flags''] None]"

definition deterministic_with_unknown :: "Stage list" where
  "deterministic_with_unknown =
     [stage ''TRIAGE'' ''deterministic''
        [ability ''no_such_ability'' ''ATLAS'' ''Unknown''] None]"

definition fallback_with_unknown :: "Stage list" where
  "fallback_with_unknown =
     [stage ''TRIAGE'' ''non-deterministic''
        [ability ''no_such_ability'' ''ATLAS'' ''Unknown''] None]"

definition net_answer :: "nat \<Rightarrow> string \<Rightarrow> json \<Rightarrow> http_result" where
  "net_answer n url body = Responds 200 (Some (JObj [(''answer'', JStr ''from service'')]))"


definition fallback_wait :: "Stage list" where
  "fallback_wait =
     [stage ''WAIT'' ''non-deterministic''
        [ability ''extract_answer'' ''ATLAS'' ''Extract answer''] None]"

section \<open>Reading the trace of handled invocations\<close>






definition audit_then_escalate :: "Stage list" where
  "audit_then_escalate =
     [stage ''DECIDE'' ''non-deterministic''
        [ability ''solution_evaluation'' ''COMMON'' ''Score solutions'',
         ability ''update_payload'' ''COMMON'' ''Record decision'',
         ability ''escalation_decision'' ''ATLAS'' ''Escalate if needed''] None]"

section \<open>The retry loop\<close>

lemma attempts_step_raises:
  assumes "post e (length (posts w)) url body = Raises m"
  shows "attempts e url body k w =
     (if RETRY_ATTEMPTS e \<le> int k
      then (Inl (RequestError m),
            w\<lparr>loguru := loguru w @ [(''DEBUG'', ''MCP call'')], posts := posts w @ [(url, body)]\<rparr>)
      else attempts e url body (Suc k)
            (w\<lparr>loguru := loguru w @ [(''DEBUG'', ''MCP call'')], posts := posts w @ [(url, body)],
               sleeps := sleeps w @ [wait_exponential 1 (RETRY_WAIT_SECONDS e) 10 k]\<rparr>))"
  using assms by (subst attempts.simps) (simp add: logger_def Let_def)

lemma attempts_step_responds:
  assumes "post e (length (posts w)) url body = Responds status decoded"
  shows "attempts e url body k w =
     ((if 500 \<le> status then Inl (MCPClientError (ServerError status))
       else case decoded of None \<Rightarrow> Inl JSONDecodeError | Some j \<Rightarrow> Inr j),
      w\<lparr>loguru := loguru w @ [(''DEBUG'', ''MCP call'')], posts := posts w @ [(url, body)]\<rparr>)"
  using assms by (subst attempts.simps) (simp add: logger_def Let_def split: option.splits)

lemma upt_front: "[k..<k + Suc j] = k # [Suc k..<Suc k + j]"
  by (subst upt_conv_Cons) simp_all

text \<open>
  \<open>j\<close> transport failures in a row, each within the attempt budget, cost \<open>j\<close> POSTs
  and \<open>j\<close> sleeps and leave the loop at attempt \<open>k + j\<close>.
\<close>

lemma attempts_raises_prefix:
  assumes "\<forall>i<j. \<exists>m. post e (length (posts w) + i) url body = Raises m"
    and "int (k + j) \<le> RETRY_ATTEMPTS e"
  shows "attempts e url body k w =
     attempts e url body (k + j)
       (w\<lparr>loguru := loguru w @ replicate j (''DEBUG'', ''MCP call''),
          posts := posts w @ replicate j (url, body),
          sleeps := sleeps w @ map (wait_exponential 1 (RETRY_WAIT_SECONDS e) 10) [k..<k + j]\<rparr>)"
  using assms
proof (induction j arbitrary: k w)
  case 0
  then show ?case by simp
next
  case (Suc j)
  from Suc.prems(1) obtain m where m: "post e (length (posts w)) url body = Raises m"
    by force
  let ?w = "w\<lparr>loguru := loguru w @ [(''DEBUG'', ''MCP call'')], posts := posts w @ [(url, body)],
               sleeps := sleeps w @ [wait_exponential 1 (RETRY_WAIT_SECONDS e) 10 k]\<rparr>"
  have step: "attempts e url body k w = attempts e url body (Suc k) ?w"
    using Suc.prems(2) by (simp add: attempts_step_raises [OF m])
  have "\<forall>i<j. \<exists>m. post e (length (posts ?w) + i) url body = Raises m"
    using Suc.prems(1) by (auto dest: spec [where x = "Suc i" for i])
  moreover have "int (Suc k + j) \<le> RETRY_ATTEMPTS e"
    using Suc.prems(2) by simp
  ultimately have rec: "attempts e url body (Suc k) ?w =
     attempts e url body (Suc k + j)
       (?w\<lparr>loguru := loguru ?w @ replicate j (''DEBUG'', ''MCP call''),
          posts := posts ?w @ replicate j (url, body),
          sleeps := sleeps ?w @ map (wait_exponential 1 (RETRY_WAIT_SECONDS e) 10) [Suc k..<Suc k + j]\<rparr>)"
    by (rule Suc.IH)
  have w_eq: "?w\<lparr>loguru := loguru ?w @ replicate j (''DEBUG'', ''MCP call''),
          posts := posts ?w @ replicate j (url, body),
          sleeps := sleeps ?w @ map (wait_exponential 1 (RETRY_WAIT_SECONDS e) 10) [Suc k..<Suc k + j]\<rparr>
      = w\<lparr>loguru := loguru w @ replicate (Suc j) (''DEBUG'', ''MCP call''),
          posts := posts w @ replicate (Suc j) (url, body),
          sleeps := sleeps w @ map (wait_exponential 1 (RETRY_WAIT_SECONDS e) 10) [k..<k + Suc j]\<rparr>"
    unfolding upt_front by simp
  show ?case
    unfolding step rec w_eq by simp
qed

text \<open>The first response that is not a transport failure ends the call.\<close>

lemma call_after_failures:
  assumes "\<forall>i<j. \<exists>m. post e (length (posts w) + i) (base @ ''/'' @ path_or path ab) body = Raises m"
    and "int j < RETRY_ATTEMPTS e"
    and "post e (length (posts w) + j) (base @ ''/'' @ path_or path ab) body = Responds status decoded"
  shows "call e base ab body path w =
     ((if 500 \<le> status then Inl (MCPClientError (ServerError status))
       else case decoded of None \<Rightarrow> Inl JSONDecodeError | Some r \<Rightarrow> Inr r),
      w\<lparr>loguru := loguru w @ replicate (Suc j) (''DEBUG'', ''MCP call''),
        posts := posts w @ replicate (Suc j) (base @ ''/'' @ path_or path ab, body),
        sleeps := sleeps w @ map (wait_exponential 1 (RETRY_WAIT_SECONDS e) 10) [1..<Suc j]\<rparr>)"
proof -
  let ?url = "base @ ''/'' @ path_or path ab"
  let ?w = "w\<lparr>loguru := loguru w @ replicate j (''DEBUG'', ''MCP call''),
          posts := posts w @ replicate j (?url, body),
          sleeps := sleeps w @ map (wait_exponential 1 (RETRY_WAIT_SECONDS e) 10) [1..<1 + j]\<rparr>"
  have "int (1 + j) \<le> RETRY_ATTEMPTS e"
    using assms(2) by simp
  with assms(1) have "attempts e ?url body 1 w = attempts e ?url body (1 + j) ?w"
    by (rule attempts_raises_prefix)
  moreover have "post e (length (posts ?w)) ?url body = Responds status decoded"
    using assms(3) by simp
  ultimately show ?thesis
    by (simp add: call_def attempts_step_responds replicate_append_same)
qed

text \<open>
  When every attempt of the budget fails in transport, the call ends after the last one
  with that attempt's exception.
\<close>

lemma call_all_fail:
  assumes "\<forall>i<n. post e (length (posts w) + i) (base @ ''/'' @ path_or path ab) body = Raises (m i)"
    and "RETRY_ATTEMPTS e = int n" and "1 \<le> n"
  shows "call e base ab body path w =
     (Inl (RequestError (m (n - 1))),
      w\<lparr>loguru := loguru w @ replicate n (''DEBUG'', ''MCP call''),
        posts := posts w @ replicate n (base @ ''/'' @ path_or path ab, body),
        sleeps := sleeps w @ map (wait_exponential 1 (RETRY_WAIT_SECONDS e) 10) [1..<n]\<rparr>)"
proof -
  let ?url = "base @ ''/'' @ path_or path ab"
  obtain j where n: "n = Suc j"
    using assms(3) by (cases n) auto
  let ?w = "w\<lparr>loguru := loguru w @ replicate j (''DEBUG'', ''MCP call''),
          posts := posts w @ replicate j (?url, body),
          sleeps := sleeps w @ map (wait_exponential 1 (RETRY_WAIT_SECONDS e) 10) [1..<1 + j]\<rparr>"
  have "\<forall>i<j. \<exists>x. post e (length (posts w) + i) ?url body = Raises x"
    using assms(1) n by auto
  moreover have "int (1 + j) \<le> RETRY_ATTEMPTS e"
    using assms(2) n by simp
  ultimately have "attempts e ?url body 1 w = attempts e ?url body (1 + j) ?w"
    by (rule attempts_raises_prefix)
  moreover have "post e (length (posts ?w)) ?url body = Raises (m j)"
    using assms(1) n by simp
  ultimately show ?thesis
    using assms(2) n by (simp add: call_def attempts_step_raises replicate_append_same)
qed

text \<open>
  One transport failure, then a good response: two POSTs, one sleep, and the body of the
  second response is the value of the call.
\<close>

lemma call_second_attempt_succeeds:
  assumes "post e (length (posts w)) (base @ ''/'' @ path_or path ab) body = Raises m"
    and "post e (Suc (length (posts w))) (base @ ''/'' @ path_or path ab) body
           = Responds status (Some r)"
    and "status < 500" and "2 \<le> RETRY_ATTEMPTS e"
  shows "call e base ab body path w =
     (Inr r,
      w\<lparr>loguru := loguru w @ replicate 2 (''DEBUG'', ''MCP call''),
        posts := posts w @ replicate 2 (base @ ''/'' @ path_or path ab, body),
        sleeps := sleeps w @ [wait_exponential 1 (RETRY_WAIT_SECONDS e) 10 1]\<rparr>)"
proof -
  have a: "\<forall>i<1. \<exists>x. post e (length (posts w) + i) (base @ ''/'' @ path_or path ab) body = Raises x"
    using assms(1) by simp
  have b: "int 1 < RETRY_ATTEMPTS e"
    using assms(4) by simp
  have c: "post e (length (posts w) + 1) (base @ ''/'' @ path_or path ab) body
           = Responds status (Some r)"
    using assms(2) by simp
  show ?thesis
    using assms(3) by (simp add: call_after_failures [OF a b c] numeral_2_eq_2)
qed




text \<open>
  C4. With \<open>RETRY_ATTEMPTS = n\<close> (at least 1) and a POST that fails in transport on
  every attempt, exactly \<open>n\<close> POSTs are made; what reaches the caller is then the last
  attempt's own transport exception (\<open>reraise=True\<close>), not
  \<open>MCPClientError("Retries exhausted")\<close>: the statement that raises it after the loop
  is never reached.
\<close>

theorem exhausted_retries_reraise_transport_error:
  assumes "\<forall>i<n. post e (length (posts w) + i) (base @ ''/'' @ path_or path ab) body = Raises (m i)"
    and "RETRY_ATTEMPTS e = int n" and "1 \<le> n"
  shows "fst (call e base ab body path w) = Inl (RequestError (m (n - 1)))
       \<and> fst (call e base ab body path w) \<noteq> Inl (MCPClientError RetriesExhausted)
       \<and> posts (snd (call e base ab body path w)) =
           posts w @ replicate n (base @ ''/'' @ path_or path ab, body)"
  by (simp add: call_all_fail [OF assms])

theorem exhausted_retries_reraise_transport_error_witness:
  "fst (call (test_env net_down) ''http://atlas'' ''update_ticket'' (JObj []) None world0)
     = Inl (RequestError ''connection refused'')
   \<and> fst (call (test_env net_down) ''http://atlas'' ''update_ticket'' (JObj []) None world0)
     \<noteq> Inl (MCPClientError RetriesExhausted)
   \<and> length (posts (snd (call (test_env net_down) ''http://atlas'' ''update_ticket'' (JObj []) None world0)))
     = 3"
  using exhausted_retries_reraise_transport_error [of 3 "test_env net_down" world0
      "''http://atlas''" None "''update_ticket''" "JObj []" "\<lambda>i. ''connection refused''"]
  by (simp add: test_env_def net_down_def world0_def)

section \<open>The decision policy\<close>

lemma randint_range: "a \<le> b \<Longrightarrow> a \<le> fst (randint e a b w) \<and> fst (randint e a b w) \<le> b"
proof -
  assume ab: "a \<le> b"
  have "random_source e (draws w) mod nat (b - a + 1) < nat (b - a + 1)"
    using ab by simp
  then have "int (random_source e (draws w) mod nat (b - a + 1)) < b - a + 1"
    using ab by linarith
  then show ?thesis
    by (simp add: randint_def)
qed

text \<open>
  C2. Whenever \<open>kb.hits\<close> is a list, \<open>solution_evaluation\<close> returns and stores
  \<open>max(0, min(100, 70 + min(20, 10 * len(hits)) - (10 if priority == "HIGH") + jitter))\<close>,
  where the jitter is the draw of \<open>random.randint(-3, 3)\<close>: an integer between -3 and 3,
  each of which some value of the random source produces. The stored score lies between
  0 and 100.
\<close>

theorem solution_evaluation_score:
  assumes "kb_hits_of st = JList hits"
  shows "let jitter = fst (randint e (- 3) 3 w);
             sc = max 0 (min 100 (70 + min 20 (int (length hits) * 10)
                    - (if dict_get (payload st) ''priority'' = Some (JStr ''HIGH'') then 10 else 0)
                    + jitter));
             out = solution_evaluation e kw st w
         in - 3 \<le> jitter \<and> jitter \<le> 3
          \<and> fst out = Inr (Res (JObj [(''score'', JInt sc)]))
          \<and> score (decision_of (fst (snd out))) = Some sc
          \<and> 0 \<le> sc \<and> sc \<le> 100
          \<and> (\<forall>j. - 3 \<le> j \<and> j \<le> 3 \<longrightarrow>
                (\<exists>r. fst (randint (e\<lparr>random_source := (\<lambda>n. r)\<rparr>) (- 3) 3 w) = j))"
proof -
  have range: "- 3 \<le> fst (randint e (- 3) 3 w) \<and> fst (randint e (- 3) 3 w) \<le> 3"
    by (rule randint_range) simp
  have cover: "\<exists>r. fst (randint (e\<lparr>random_source := (\<lambda>n. r)\<rparr>) (- 3) 3 w) = j"
    if "- 3 \<le> j \<and> j \<le> 3" for j
  proof
    have "nat (j + 3) < 7"
      using that by linarith
    then have "nat (j + 3) mod 7 = nat (j + 3)"
      by simp
    then show "fst (randint (e\<lparr>random_source := (\<lambda>n. nat (j + 3))\<rparr>) (- 3) 3 w) = j"
      using that by (simp add: randint_def)
  qed
  show ?thesis
    using range cover assms
    by (simp add: solution_evaluation_def Let_def decision_of_def split: prod.splits)
qed

theorem solution_evaluation_score_witness:
  "kb_hits_of (scored_state 0) = JList [JStr ''kb-1'']
   \<and> fst (solution_evaluation (test_env net_ok) no_kwargs (scored_state 0) world0)
       = Inr (Res (JObj [(''score'', JInt 70)]))
   \<and> score (decision_of (fst (snd (solution_evaluation (test_env net_ok) no_kwargs (scored_state 0) world0))))
       = Some 70"
proof -
  have h: "kb_hits_of (scored_state 0) = JList [JStr ''kb-1'']"
    by (simp add: kb_hits_of_def scored_state_def or_empty_def dict_get_def)
  have j: "fst (randint (test_env net_ok) (- 3) 3 world0) = 0"
    by (simp add: randint_def test_env_def world0_def)
  have p: "dict_get (payload (scored_state 0)) ''priority'' = Some (JStr ''HIGH'')"
    by (simp add: scored_state_def initial_state_def dict_get_def)
  show ?thesis
    using solution_evaluation_score [OF h, of "test_env net_ok" world0 no_kwargs] h
    by (simp add: Let_def j p)
qed

text \<open>
  C10. \<open>escalation_decision\<close> checks the score itself: invoked with a score of 90 or
  more, or with no score (read as 100), it returns \<open>{"status": "not_escalated"}\<close> and
  leaves the state and the world as they were: no POST is sent and
  \<open>decision.escalated_to\<close> is not written.
\<close>

theorem escalation_decision_rechecks_score:
  assumes "case decision st of None \<Rightarrow> True
           | Some d \<Rightarrow> (case score d of None \<Rightarrow> True | Some s \<Rightarrow> 90 \<le> s)"
  shows "escalation_decision e kw st w = (Inr (Res (JObj [(''status'', JStr ''not_escalated'')])), st, w)"
  using assms
  by (auto simp: escalation_decision_def score_of_def decision_of_def split: option.splits)

theorem escalation_decision_rechecks_score_witness:
  "escalation_decision (test_env net_ok) no_kwargs (scored_state 95) world0
     = (Inr (Res (JObj [(''status'', JStr ''not_escalated'')])), scored_state 95, world0)
   \<and> escalation_decision (test_env net_ok) no_kwargs (initial_state []) world0
     = (Inr (Res (JObj [(''status'', JStr ''not_escalated'')])), initial_state [], world0)"
  using escalation_decision_rechecks_score [of "scored_state 95" "test_env net_ok" no_kwargs world0]
    escalation_decision_rechecks_score [of "initial_state []" "test_env net_ok" no_kwargs world0]
  by (simp add: scored_state_def initial_state_def)

section \<open>What the client and the handlers leave alone\<close>

lemma attempts_frame:
  "invoked (snd (attempts e url body k w)) = invoked w
   \<and> handled (snd (attempts e url body k w)) = handled w
   \<and> db_attempts (snd (attempts e url body k w)) = db_attempts w
   \<and> db_rows (snd (attempts e url body k w)) = db_rows w
   \<and> draws (snd (attempts e url body k w)) = draws w
   \<and> ticks (snd (attempts e url body k w)) = ticks w"
proof (induction e url body k w rule: attempts.induct)
  case (1 e url body k w)
  show ?case
  proof (cases "post e (length (posts w)) url body")
    case (Raises m)
    show ?thesis
    proof (cases "RETRY_ATTEMPTS e \<le> int k")
      case True
      then show ?thesis
        by (simp add: attempts_step_raises [OF Raises])
    next
      case False
      have "post e (length (posts (logger ''DEBUG'' ''MCP call'' w))) url body = Raises m"
        using Raises by (simp add: logger_def)
      from "1.IH" [OF refl refl refl this False] False show ?thesis
        by (simp add: attempts_step_raises [OF Raises] logger_def)
    qed
  next
    case (Responds status decoded)
    then show ?thesis
      by (simp add: attempts_step_responds [OF Responds])
  qed
qed

text \<open>Every call sends at least one POST, and all its POSTs go to the same address.\<close>

lemma attempts_posts:
  "\<exists>n. posts (snd (attempts e url body k w)) = posts w @ replicate (Suc n) (url, body)"
proof (induction e url body k w rule: attempts.induct)
  case (1 e url body k w)
  show ?case
  proof (cases "post e (length (posts w)) url body")
    case (Raises m)
    show ?thesis
    proof (cases "RETRY_ATTEMPTS e \<le> int k")
      case True
      then have "posts (snd (attempts e url body k w)) = posts w @ replicate (Suc 0) (url, body)"
        by (simp add: attempts_step_raises [OF Raises])
      then show ?thesis by blast
    next
      case False
      have "post e (length (posts (logger ''DEBUG'' ''MCP call'' w))) url body = Raises m"
        using Raises by (simp add: logger_def)
      from "1.IH" [OF refl refl refl this False] obtain n where
        "posts (snd (attempts e url body k w)) = posts w @ replicate (Suc (Suc n)) (url, body)"
        using False by (auto simp: attempts_step_raises [OF Raises] logger_def)
      then show ?thesis by blast
    qed
  next
    case (Responds status decoded)
    then have "posts (snd (attempts e url body k w)) = posts w @ replicate (Suc 0) (url, body)"
      by (simp add: attempts_step_responds [OF Responds])
    then show ?thesis by blast
  qed
qed

text \<open>The client never asks the database whether a commit would succeed.\<close>

lemma attempts_commit_ok:
  "attempts (e\<lparr>commit_ok := c\<rparr>) url body k w = attempts e url body k w"
proof (induction e url body k w rule: attempts.induct)
  case (1 e url body k w)
  show ?case
  proof (cases "post e (length (posts w)) url body")
    case (Raises m)
    then have r': "post (e\<lparr>commit_ok := c\<rparr>) (length (posts w)) url body = Raises m"
      by simp
    show ?thesis
    proof (cases "RETRY_ATTEMPTS e \<le> int k")
      case True
      then show ?thesis
        by (simp add: attempts_step_raises [OF Raises] attempts_step_raises [OF r'])
    next
      case False
      have "post e (length (posts (logger ''DEBUG'' ''MCP call'' w))) url body = Raises m"
        using Raises by (simp add: logger_def)
      from "1.IH" [OF refl refl refl this False] False show ?thesis
        by (simp add: attempts_step_raises [OF Raises] attempts_step_raises [OF r'] logger_def)
    qed
  next
    case (Responds status decoded)
    then have r': "post (e\<lparr>commit_ok := c\<rparr>) (length (posts w)) url body = Responds status decoded"
      by simp
    show ?thesis
      by (simp add: attempts_step_responds [OF Responds] attempts_step_responds [OF r'])
  qed
qed

lemma atlas_client_frameD:
  assumes "atlas_client e ab body w = (r, w1)"
  shows "invoked w1 = invoked w \<and> handled w1 = handled w
       \<and> db_attempts w1 = db_attempts w \<and> db_rows w1 = db_rows w
       \<and> draws w1 = draws w \<and> ticks w1 = ticks w"
  using attempts_frame [of e "MCP_ATLAS_URL e @ ''/'' @ ab" body 1 w] assms
  by (simp add: atlas_client_def call_def path_or_def)

lemma atlas_client_posts:
  "\<exists>n. posts (snd (atlas_client e ab body w))
        = posts w @ replicate (Suc n) (MCP_ATLAS_URL e @ ''/'' @ ab, body)"
  using attempts_posts [of e "MCP_ATLAS_URL e @ ''/'' @ ab" body 1 w]
  by (simp add: atlas_client_def call_def path_or_def)

lemma atlas_client_commit_ok:
  "atlas_client (e\<lparr>commit_ok := c\<rparr>) ab body w = atlas_client e ab body w"
  by (simp add: atlas_client_def call_def attempts_commit_ok)

lemmas handler_defs = accept_payload_def parse_request_text_def extract_entities_def
  normalize_fields_def enrich_records_def add_flags_calculations_def clarify_question_def
  extract_answer_def store_answer_def knowledge_base_search_def store_data_def
  solution_evaluation_def escalation_decision_def update_payload_def update_ticket_def
  close_ticket_def response_generation_def execute_api_calls_def trigger_notifications_def
  output_payload_def

lemma keeps_frame_local:
  "keeps_frame accept_payload" "keeps_frame parse_request_text" "keeps_frame normalize_fields"
  "keeps_frame add_flags_calculations" "keeps_frame store_answer" "keeps_frame store_data"
  "keeps_frame solution_evaluation" "keeps_frame update_payload"
  "keeps_frame response_generation" "keeps_frame output_payload"
  by (auto simp: keeps_frame_def handler_defs logger_def Let_def randint_def
      split: json.splits option.splits sum.splits prod.splits)

lemma keeps_frame_remote:
  "keeps_frame extract_entities" "keeps_frame enrich_records" "keeps_frame clarify_question"
  "keeps_frame extract_answer" "keeps_frame knowledge_base_search"
  "keeps_frame escalation_decision" "keeps_frame update_ticket" "keeps_frame close_ticket"
  "keeps_frame execute_api_calls" "keeps_frame trigger_notifications"
  by (auto simp: keeps_frame_def handler_defs logger_def Let_def atlas_client_commit_ok
      dest!: atlas_client_frameD
      split: json.splits option.splits sum.splits prod.splits)


lemma invoke_invoked:
  assumes "keeps_frame fn" and "invoke nm fn e kw st w = (r, st1, w1)"
  shows "invoked w1 = invoked w @ [nm]"
proof -
  have "invoked (snd (snd (fn e kw st (w\<lparr>invoked := invoked w @ [nm]\<rparr>))))
          = invoked (w\<lparr>invoked := invoked w @ [nm]\<rparr>)"
    using assms(1) unfolding keeps_frame_def by blast
  then show ?thesis
    using assms(2) by (auto simp: invoke_def split: prod.splits)
qed


text \<open>Apart from the two trace entries, an invocation is the handler's own call.\<close>

lemma invoke_result:
  assumes "invoke nm fn e kw st w = (x, st1, w1)"
  shows "fst (fn e kw st (w\<lparr>invoked := invoked w @ [nm]\<rparr>)) = x
       \<and> fst (snd (fn e kw st (w\<lparr>invoked := invoked w @ [nm]\<rparr>))) = st1
       \<and> posts (snd (snd (fn e kw st (w\<lparr>invoked := invoked w @ [nm]\<rparr>)))) = posts w1"
  using assms by (auto simp: invoke_def split: prod.splits)


section \<open>Order of invocation\<close>




section \<open>References without a handler\<close>

text \<open>
  A sequential pass ends as the pass over the resolved abilities does, whatever the log
  was; the other loops do not depend on the log either.
\<close>

lemma run_sequential_resolved:
  "outcome_of (run_sequential e inp sim xs st lg w)
     = outcome_of (run_sequential e inp sim (resolved xs) st lg2 w)"
proof (induction xs arbitrary: st lg lg2 w)
  case Nil
  show ?case by (simp add: resolved_def outcome_of_def)
next
  case (Cons a rest)
  show ?case
  proof (cases "ABILITY_LOOKUP (name a)")
    case None
    then have "resolved (a # rest) = resolved rest"
      by (simp add: resolved_def)
    with None Cons.IH show ?thesis by simp
  next
    case (Some fn)
    then have r: "resolved (a # rest) = a # resolved rest"
      by (simp add: resolved_def)
    obtain x st1 w1 where inv: "invoke (name a) fn e (extra_for (name a) inp sim) st w = (x, st1, w1)"
      by (metis prod_cases3)
    show ?thesis
    proof (cases x)
      case (Inl err)
      with Some inv r show ?thesis by (simp add: outcome_of_def)
    next
      case (Inr res)
      with Some inv r Cons.IH show ?thesis by simp
    qed
  qed
qed

lemma run_fallback_log:
  "outcome_of (run_fallback e xs st lg w) = outcome_of (run_fallback e xs st lg2 w)"
proof (induction xs arbitrary: st lg lg2 w)
  case Nil
  show ?case by (simp add: outcome_of_def)
next
  case (Cons a rest)
  show ?case
  proof (cases "ABILITY_LOOKUP (name a)")
    case None
    with Cons.IH show ?thesis by simp
  next
    case (Some fn)
    obtain x st1 w1 where inv: "invoke (name a) fn e no_kwargs st w = (x, st1, w1)"
      by (metis prod_cases3)
    show ?thesis
    proof (cases x)
      case (Inl err)
      with Some inv show ?thesis by (simp add: outcome_of_def)
    next
      case (Inr res)
      with Some inv Cons.IH show ?thesis by simp
    qed
  qed
qed

lemma score_then_maybe_escalate_log:
  "outcome_of (score_then_maybe_escalate e st lg w)
     = outcome_of (score_then_maybe_escalate e st lg2 w)"
  by (simp add: score_then_maybe_escalate_def record_decision_def outcome_of_def Let_def
      split: prod.splits sum.splits)

lemma run_stage_resolved:
  "outcome_of (run_stage e inp sim s st lg w)
     = outcome_of (run_stage e inp sim (resolve_stage s) st lg2 w)"
proof (cases "mode s = ''deterministic'' \<or> mode s = ''human''")
  case True
  then show ?thesis
    using run_sequential_resolved
    by (simp add: run_stage_def resolve_stage_def Let_def)
next
  case False
  then show ?thesis
    using run_fallback_log score_then_maybe_escalate_log
    by (simp add: run_stage_def resolve_stage_def Let_def outcome_of_def)
qed

lemma run_stages_resolved:
  "outcome_of (run_stages e inp sim ss st lg w)
     = outcome_of (run_stages e inp sim (map resolve_stage ss) st lg2 w)"
proof (induction ss arbitrary: st lg lg2 w)
  case Nil
  show ?case by (simp add: outcome_of_def)
next
  case (Cons s rest)
  obtain r st1 lg1 w1 where a: "run_stage e inp sim s st lg w = (r, st1, lg1, w1)"
    by (metis prod_cases4)
  obtain r' st1' lg1' w1' where b: "run_stage e inp sim (resolve_stage s) st lg2 w = (r', st1', lg1', w1')"
    by (metis prod_cases4)
  from run_stage_resolved [of e inp sim s st lg w lg2] a b
  have eq: "r' = r" "st1' = st1" "w1' = w1"
    by (simp_all add: outcome_of_def)
  show ?case
  proof (cases r)
    case None
    with a b eq Cons.IH [of st1 lg1 w1 lg1'] show ?thesis by simp
  next
    case (Some err)
    with a b eq show ?thesis by (simp add: outcome_of_def)
  qed
qed

text \<open>The log only grows, and a sequential pass that completes has logged every miss.\<close>

lemma run_sequential_logs:
  assumes "run_sequential e inp sim xs st lg w = (r, st', lg', w')"
  shows "set lg \<subseteq> set lg'
       \<and> (r = None \<longrightarrow> (\<forall>a\<in>set xs. ABILITY_LOOKUP (name a) = None \<longrightarrow> LMissing (name a) \<in> set lg'))"
  using assms
proof (induction xs arbitrary: st lg w)
  case Nil
  then show ?case by simp
next
  case (Cons a rest)
  show ?case
  proof (cases "ABILITY_LOOKUP (name a)")
    case None
    with Cons.prems have "run_sequential e inp sim rest st (lg @ [LAbility (name a), LMissing (name a)]) w
        = (r, st', lg', w')"
      by simp
    from Cons.IH [OF this] None show ?thesis
      by auto
  next
    case (Some fn)
    obtain x st1 w1 where inv: "invoke (name a) fn e (extra_for (name a) inp sim) st w = (x, st1, w1)"
      by (metis prod_cases3)
    show ?thesis
    proof (cases x)
      case (Inl err)
      with Cons.prems Some inv show ?thesis by auto
    next
      case (Inr res)
      with Cons.prems Some inv have
        "run_sequential e inp sim rest st1 (lg @ [LAbility (name a), LRes res]) w1 = (r, st', lg', w')"
        by simp
      from Cons.IH [OF this] Some show ?thesis
        by auto
    qed
  qed
qed

lemma run_fallback_logs:
  assumes "run_fallback e xs st lg w = (r, st', lg', w')"
  shows "set lg \<subseteq> set lg'"
  using assms
proof (induction xs arbitrary: st lg w)
  case Nil
  then show ?case by simp
next
  case (Cons a rest)
  show ?case
  proof (cases "ABILITY_LOOKUP (name a)")
    case None
    with Cons.prems Cons.IH show ?thesis by simp
  next
    case (Some fn)
    obtain x st1 w1 where inv: "invoke (name a) fn e no_kwargs st w = (x, st1, w1)"
      by (metis prod_cases3)
    show ?thesis
    proof (cases x)
      case (Inl err)
      with Cons.prems Some inv show ?thesis by auto
    next
      case (Inr res)
      with Cons.prems Some inv have
        "run_fallback e rest st1 (lg @ [LFallback (name a) res]) w1 = (r, st', lg', w')"
        by simp
      from Cons.IH [OF this] show ?thesis by auto
    qed
  qed
qed

lemma score_then_maybe_escalate_logs:
  assumes "score_then_maybe_escalate e st lg w = (r, st', lg', w')"
  shows "set lg \<subseteq> set lg'"
  using assms
  by (auto simp: score_then_maybe_escalate_def record_decision_def Let_def
      split: prod.splits sum.splits if_splits)

lemma run_stage_logs:
  assumes "run_stage e inp sim s st lg w = (r, st', lg', w')"
  shows "set lg \<subseteq> set lg'
       \<and> (r = None \<and> (mode s = ''deterministic'' \<or> mode s = ''human'') \<longrightarrow>
            (\<forall>a\<in>set (abilities s). ABILITY_LOOKUP (name a) = None \<longrightarrow> LMissing (name a) \<in> set lg'))"
proof (cases "mode s = ''deterministic'' \<or> mode s = ''human''")
  case True
  with assms have "run_sequential e inp sim (abilities s) st (lg @ [LStage (stage_name s) (mode s)])
       (logger ''INFO'' (''stage: '' @ stage_name s @ '' mode='' @ mode s) w) = (r, st', lg', w')"
    by (simp add: run_stage_def Let_def)
  from run_sequential_logs [OF this] show ?thesis by auto
next
  case False
  show ?thesis
  proof (cases "mode s = ''non-deterministic''")
    case nd: True
    show ?thesis
    proof (cases "exec_rule s = Some ''score_then_maybe_escalate''")
      case True
      with assms False nd have "score_then_maybe_escalate e st (lg @ [LStage (stage_name s) (mode s)])
         (logger ''INFO'' (''stage: '' @ stage_name s @ '' mode='' @ mode s) w) = (r, st', lg', w')"
        by (simp add: run_stage_def Let_def)
      from score_then_maybe_escalate_logs [OF this] False show ?thesis by auto
    next
      case nr: False
      with assms False nd have "run_fallback e (abilities s) st (lg @ [LStage (stage_name s) (mode s)])
         (logger ''INFO'' (''stage: '' @ stage_name s @ '' mode='' @ mode s) w) = (r, st', lg', w')"
        by (simp add: run_stage_def Let_def)
      from run_fallback_logs [OF this] False show ?thesis by auto
    qed
  next
    case other: False
    with assms False show ?thesis
      by (auto simp: run_stage_def Let_def)
  qed
qed

lemma run_stages_logs:
  assumes "run_stages e inp sim ss st lg w = (r, st', lg', w')"
  shows "set lg \<subseteq> set lg'
       \<and> (r = None \<longrightarrow> (\<forall>s\<in>set ss. mode s = ''deterministic'' \<or> mode s = ''human'' \<longrightarrow>
            (\<forall>a\<in>set (abilities s). ABILITY_LOOKUP (name a) = None \<longrightarrow> LMissing (name a) \<in> set lg')))"
  using assms
proof (induction ss arbitrary: st lg w)
  case Nil
  then show ?case by simp
next
  case (Cons s rest)
  obtain r1 st1 lg1 w1 where a: "run_stage e inp sim s st lg w = (r1, st1, lg1, w1)"
    by (metis prod_cases4)
  note first = run_stage_logs [OF a]
  show ?case
  proof (cases r1)
    case None
    with Cons.prems a have b: "run_stages e inp sim rest st1 lg1 w1 = (r, st', lg', w')"
      by simp
    note later = Cons.IH [OF b]
    from first later None show ?thesis
      by (auto 4 3)
  next
    case (Some err)
    with Cons.prems a have "r = Some err" and "lg' = lg1"
      by simp_all
    with first show ?thesis by simp
  qed
qed

text \<open>
  In a deterministic or human stage a reference to a name that the registry does not
  hold never aborts the run: the run ends as the same run without such references does,
  with the same exception or the same final state, and the log of a run that completes
  holds the missing-implementation entry of every such name.
\<close>

lemma missing_ability_does_not_abort:
  "map_sum id fst (fst (run e stages inp sim w))
     = map_sum id fst (fst (run e (map resolve_stage stages) inp sim w))
   \<and> (\<forall>final lg. fst (run e stages inp sim w) = Inr (final, lg) \<longrightarrow>
        (\<forall>s\<in>set stages. mode s = ''deterministic'' \<or> mode s = ''human'' \<longrightarrow>
           (\<forall>a\<in>set (abilities s). ABILITY_LOOKUP (name a) = None \<longrightarrow> LMissing (name a) \<in> set lg)))"
proof -
  obtain r st lg1 w1 where a: "run_stages e inp sim stages (initial_state inp) [] w = (r, st, lg1, w1)"
    by (metis prod_cases4)
  obtain r' st' lg1' w1' where
    b: "run_stages e inp sim (map resolve_stage stages) (initial_state inp) [] w = (r', st', lg1', w1')"
    by (metis prod_cases4)
  from run_stages_resolved [of e inp sim stages "initial_state inp" "[]" w "[]"] a b
  have eq: "r' = r" "st' = st"
    by (simp_all add: outcome_of_def)
  have same: "map_sum id fst (fst (run e stages inp sim w))
     = map_sum id fst (fst (run e (map resolve_stage stages) inp sim w))"
    using a b eq by (cases r) (simp_all add: run_def)
  have logged: "\<forall>s\<in>set stages. mode s = ''deterministic'' \<or> mode s = ''human'' \<longrightarrow>
           (\<forall>a\<in>set (abilities s). ABILITY_LOOKUP (name a) = None \<longrightarrow> LMissing (name a) \<in> set lg)"
    if "fst (run e stages inp sim w) = Inr (final, lg)" for final lg
  proof -
    from that a have "r = None \<and> lg = lg1"
      by (cases r) (simp_all add: run_def)
    with run_stages_logs [OF a] show ?thesis by blast
  qed
  from same logged show ?thesis by blast
qed

lemma missing_ability_does_not_abort_example:
  "(case fst (run (test_env net_ok) stages_with_unknown ticket_payload None world0) of
      Inl err \<Rightarrow> False
    | Inr (final, lg) \<Rightarrow> LMissing ''no_such_ability'' \<in> set lg)"
proof -
  let ?X = "fst (run (test_env net_ok) stages_with_unknown ticket_payload None world0)"
  have "case ?X of Inl err \<Rightarrow> False | Inr (final, lg) \<Rightarrow> True"
    by code_simp
  then obtain final lg where x: "?X = Inr (final, lg)"
    by (cases ?X) auto
  let ?s = "stage ''PREPARE'' ''deterministic''
        [ability ''normalize_fields'' ''COMMON'' ''Normalize'',
         ability ''no_such_ability'' ''ATLAS'' ''Unknown'',
         ability ''add_flags_calculations'' ''COMMON'' ''Flags''] None"
  let ?a = "ability ''no_such_ability'' ''ATLAS'' ''Unknown''"
  have s: "?s \<in> set stages_with_unknown"
    by (simp add: stages_with_unknown_def)
  have m: "mode ?s = ''deterministic'' \<or> mode ?s = ''human''"
    by (simp add: stage_def)
  have a: "?a \<in> set (abilities ?s)"
    by (simp add: stage_def)
  have n: "ABILITY_LOOKUP (name ?a) = None"
    by (simp add: ABILITY_LOOKUP_def ability_def)
  from missing_ability_does_not_abort [of "test_env net_ok" stages_with_unknown ticket_payload None world0] x
  have "\<forall>s\<in>set stages_with_unknown. mode s = ''deterministic'' \<or> mode s = ''human'' \<longrightarrow>
           (\<forall>a\<in>set (abilities s). ABILITY_LOOKUP (name a) = None \<longrightarrow> LMissing (name a) \<in> set lg)"
    by blast
  with s m have "\<forall>a\<in>set (abilities ?s). ABILITY_LOOKUP (name a) = None \<longrightarrow> LMissing (name a) \<in> set lg"
    by blast
  with a n have "LMissing (name ?a) \<in> set lg"
    by blast
  then have "LMissing ''no_such_ability'' \<in> set lg"
    by (simp add: ability_def)
  with x show ?thesis
    by simp
qed

text \<open>
  C5. The claim holds in the deterministic and human stages (the lemma above) and fails
  in the third loop of the same function: a stage of mode \<open>non-deterministic\<close> with
  another rule than \<open>score_then_maybe_escalate\<close> runs its abilities in declared order
  as well, but passes over a name the registry does not hold without a word. The run
  completes and its log holds the stage marker only, where the same reference in a
  deterministic stage leaves the missing-implementation entry.
\<close>

theorem fallback_skips_unknown_name_silently:
  "(case ABILITY_LOOKUP ''no_such_ability'' of None \<Rightarrow> True | Some fn \<Rightarrow> False)
   \<and> (case fst (run (test_env net_ok) fallback_with_unknown ticket_payload None world0) of
        Inl err \<Rightarrow> False
      | Inr (final, lg) \<Rightarrow> lg = [LStage ''TRIAGE'' ''non-deterministic''])
   \<and> (case fst (run (test_env net_ok) deterministic_with_unknown ticket_payload None world0) of
        Inl err \<Rightarrow> False
      | Inr (final, lg) \<Rightarrow>
          lg = [LStage ''TRIAGE'' ''deterministic'', LAbility ''no_such_ability'',
                LMissing ''no_such_ability''])"
  by code_simp

section \<open>The decision stage\<close>

lemma solution_evaluation_result:
  assumes "solution_evaluation e kw st w = (Inr res, st1, w1)"
  shows "res = Res (JObj [(''score'', JInt (score_of st1 d))])"
  using assms
  by (auto simp: solution_evaluation_def Let_def score_of_def decision_of_def
      split: sum.splits prod.splits)

lemma record_decision_invoked:
  assumes "record_decision e st lg w = (r, st', lg', w')"
  shows "r = None \<and> invoked w' = invoked w @ [''update_payload'']"
  using assms
  by (auto simp: record_decision_def invoke_def update_payload_def Let_def)

section \<open>Ticket update and closure\<close>






section \<open>Persistence and the outcome of a run\<close>















section \<open>The decision protocol\<close>

text \<open>
  C1 (as amended). In a pass through a non-deterministic stage with the rule
  \<open>score_then_maybe_escalate\<close> in which the scoring ability returns, the score it
  returns is the one stored; the escalation ability is invoked if and only if that score
  is below 90; the pass ends with an exception exactly when the escalation ability was
  invoked and raised, and then with that exception; \<open>update_payload\<close> is invoked once,
  last, exactly when the pass ends without exception. A pass that ends with an
  exception ends the loop over the stages.
\<close>

theorem decision_protocol:
  assumes "mode s = ''non-deterministic''"
    and "exec_rule s = Some ''score_then_maybe_escalate''"
    and "invoke ''solution_evaluation'' solution_evaluation e no_kwargs st
           (logger ''INFO'' (''stage: '' @ stage_name s @ '' mode='' @ mode s) w)
           = (Inr res, st1, w1)"
    and "run_stage e inp sim s st lg w = (r, st', lg', w')"
  shows "res = Res (JObj [(''score'', JInt (score_of st1 100))])
       \<and> invoked w' = invoked w @ [''solution_evaluation'']
            @ (if score_of st1 100 < 90 then [''escalation_decision''] else [])
            @ (if r = None then [''update_payload''] else [])
       \<and> r = (if score_of st1 100 < 90
              then err_of (fst (invoke ''escalation_decision'' escalation_decision e no_kwargs st1 w1))
              else None)
       \<and> (\<forall>rest. run_stages e inp sim (s # rest) st lg w
             = (if r = None then run_stages e inp sim rest st' lg' w' else (r, st', lg', w')))"
proof -
  let ?w = "logger ''INFO'' (''stage: '' @ stage_name s @ '' mode='' @ mode s) w"
  let ?lg = "lg @ [LStage (stage_name s) (mode s)]"
  have pass: "score_then_maybe_escalate e st ?lg ?w = (r, st', lg', w')"
    using assms(1,2,4) by (simp add: run_stage_def Let_def)
  have "fst (solution_evaluation e no_kwargs st (?w\<lparr>invoked := invoked ?w @ [''solution_evaluation'']\<rparr>))
          = Inr res
      \<and> fst (snd (solution_evaluation e no_kwargs st
                    (?w\<lparr>invoked := invoked ?w @ [''solution_evaluation'']\<rparr>))) = st1"
    using invoke_result [OF assms(3)] by simp
  then have "solution_evaluation e no_kwargs st (?w\<lparr>invoked := invoked ?w @ [''solution_evaluation'']\<rparr>)
               = (Inr res, st1, snd (snd (solution_evaluation e no_kwargs st
                    (?w\<lparr>invoked := invoked ?w @ [''solution_evaluation'']\<rparr>))))"
    by (metis prod.collapse)
  then have res: "res = Res (JObj [(''score'', JInt (score_of st1 100))])"
    by (rule solution_evaluation_result)
  have tr1: "invoked w1 = invoked w @ [''solution_evaluation'']"
    using invoke_invoked [OF keeps_frame_local(7) assms(3)] by (simp add: logger_def)
  have shown: "result_get res ''score'' = Inr (JInt (score_of st1 100))"
    by (simp add: res get_or_none_def dict_get_def)
  have stages: "run_stages e inp sim (s # rest) st lg w
             = (if r = None then run_stages e inp sim rest st' lg' w' else (r, st', lg', w'))" for rest
    using assms(4) by (cases r) simp_all
  show ?thesis
  proof (cases "score_of st1 100 < 90")
    case False
    with pass assms(3) shown have
      "record_decision e st1 (?lg @ [LScore (JInt (score_of st1 100)), LSkipEscalation]) w1
         = (r, st', lg', w')"
      by (simp add: score_then_maybe_escalate_def Let_def)
    from record_decision_invoked [OF this] tr1 False res stages show ?thesis
      by simp
  next
    case True
    obtain x st2 w2 where
      inv2: "invoke ''escalation_decision'' escalation_decision e no_kwargs st1 w1 = (x, st2, w2)"
      by (metis prod_cases3)
    have tr2: "invoked w2 = invoked w1 @ [''escalation_decision'']"
      using keeps_frame_remote(6) inv2 by (rule invoke_invoked)
    show ?thesis
    proof (cases x)
      case (Inl err)
      with pass assms(3) inv2 shown True have "r = Some err" and "w' = w2"
        by (simp_all add: score_then_maybe_escalate_def Let_def)
      with tr1 tr2 True res stages inv2 Inl show ?thesis
        by (simp add: err_of_def)
    next
      case (Inr res2)
      with pass assms(3) inv2 shown True have
        "record_decision e st2 (?lg @ [LScore (JInt (score_of st1 100)), LEscalation res2]) w2
           = (r, st', lg', w')"
        by (simp add: score_then_maybe_escalate_def Let_def)
      from record_decision_invoked [OF this] tr1 tr2 True res stages inv2 Inr show ?thesis
        by (simp add: err_of_def)
    qed
  qed
qed

theorem decision_protocol_witness:
  "mode (STAGE_CONFIG ! 6) = ''non-deterministic''
   \<and> exec_rule (STAGE_CONFIG ! 6) = Some ''score_then_maybe_escalate''
   \<and> fst (run_stage (test_env net_ok) ticket_payload None (STAGE_CONFIG ! 6)
            (initial_state ticket_payload) [] world0) = None
   \<and> invoked (snd (snd (snd (run_stage (test_env net_ok) ticket_payload None (STAGE_CONFIG ! 6)
            (initial_state ticket_payload) [] world0))))
       = [''solution_evaluation'', ''escalation_decision'', ''update_payload'']"
proof -
  let ?s = "STAGE_CONFIG ! 6"
  let ?w = "logger ''INFO'' (''stage: '' @ stage_name ?s @ '' mode='' @ mode ?s) world0"
  let ?S = "invoke ''solution_evaluation'' solution_evaluation (test_env net_ok) no_kwargs
              (initial_state ticket_payload) ?w"
  let ?P = "run_stage (test_env net_ok) ticket_payload None ?s (initial_state ticket_payload) [] world0"
  have m: "mode ?s = ''non-deterministic''"
    by code_simp
  have x: "exec_rule ?s = Some ''score_then_maybe_escalate''"
    by code_simp
  have "case fst ?S of Inl err \<Rightarrow> False | Inr res \<Rightarrow> True"
    by code_simp
  then obtain res where "fst ?S = Inr res"
    by (cases "fst ?S") auto
  then have s: "?S = (Inr res, fst (snd ?S), snd (snd ?S))"
    by (metis prod.collapse)
  have p: "?P = (fst ?P, fst (snd ?P), fst (snd (snd ?P)), snd (snd (snd ?P)))"
    by simp
  have low: "score_of (fst (snd ?S)) 100 < 90"
    by code_simp
  have fin: "fst ?P = None"
    by code_simp
  have "invoked (snd (snd (snd ?P)))
          = [''solution_evaluation'', ''escalation_decision'', ''update_payload'']"
    using decision_protocol [OF m x s p] low fin by (simp add: world0_def)
  with m x fin show ?thesis by blast
qed

text \<open>
  C1 (as stated) fails: the run reaches the DECIDE stage, the score is 70, the
  escalation ability is invoked and its capability call fails; \<open>update_payload\<close> is not
  invoked in that run.
\<close>

theorem decision_not_recorded_counterexample:
  "exec_rule (STAGE_CONFIG ! 6) = Some ''score_then_maybe_escalate''
   \<and> fst (run_stage (test_env net_down) ticket_payload None (STAGE_CONFIG ! 6)
            (initial_state ticket_payload) [] world0) = Some (RequestError ''connection refused'')
   \<and> score_of (fst (snd (run_stage (test_env net_down) ticket_payload None (STAGE_CONFIG ! 6)
            (initial_state ticket_payload) [] world0))) 100 = 70
   \<and> invoked (snd (snd (snd (run_stage (test_env net_down) ticket_payload None (STAGE_CONFIG ! 6)
            (initial_state ticket_payload) [] world0))))
       = [''solution_evaluation'', ''escalation_decision'']"
  by code_simp

section \<open>The simulated answer\<close>

lemma run_sequential_append:
  "run_sequential e inp sim (pre @ xs) st lg w =
     (case run_sequential e inp sim pre st lg w of
        (Some err, st1, lg1, w1) \<Rightarrow> (Some err, st1, lg1, w1)
      | (None, st1, lg1, w1) \<Rightarrow> run_sequential e inp sim xs st1 lg1 w1)"
proof (induction pre arbitrary: st lg w)
  case Nil
  show ?case by simp
next
  case (Cons a rest)
  show ?case
  proof (cases "ABILITY_LOOKUP (name a)")
    case None
    with Cons.IH show ?thesis by simp
  next
    case (Some fn)
    with Cons.IH show ?thesis
      by (simp split: prod.splits sum.splits)
  qed
qed

text \<open>
  C6 (as amended). In a pass through a deterministic or human stage that reaches the
  ability named \<open>extract_answer\<close>, the engine invokes \<open>extract_answer\<close> with the run's
  \<open>simulate_human_answer\<close> as keyword argument, and the pass goes on from what that
  invocation leaves. Given a simulated answer that is not the empty string, the
  invocation returns that string, appends exactly it to \<open>answers\<close> and sends no POST.
  Given no simulated answer, or the empty string, it calls the capability service.
\<close>

theorem extract_answer_simulated:
  assumes "mode s = ''deterministic'' \<or> mode s = ''human''"
    and "abilities s = pre @ a # rest"
    and "name a = ''extract_answer''"
    and "run_sequential e inp sim pre st (lg @ [LStage (stage_name s) (mode s)])
           (logger ''INFO'' (''stage: '' @ stage_name s @ '' mode='' @ mode s) w)
           = (None, st1, lg1, w1)"
  shows "run_stage e inp sim s st lg w =
           (case invoke ''extract_answer'' extract_answer e
                   \<lparr>kw_input_payload = None, kw_simulate_human_answer = sim\<rparr> st1 w1 of
              (Inl err, st2, w2) \<Rightarrow> (Some err, st2, lg1 @ [LAbility ''extract_answer''], w2)
            | (Inr res, st2, w2) \<Rightarrow>
                run_sequential e inp sim rest st2 (lg1 @ [LAbility ''extract_answer'', LRes res]) w2)
       \<and> (\<forall>ans. sim = Some ans \<and> ans \<noteq> [] \<longrightarrow>
             fst (invoke ''extract_answer'' extract_answer e
                    \<lparr>kw_input_payload = None, kw_simulate_human_answer = sim\<rparr> st1 w1)
               = Inr (Res (JObj [(''status'', JStr ''ok''), (''answer'', JStr ans)]))
           \<and> fst (snd (invoke ''extract_answer'' extract_answer e
                    \<lparr>kw_input_payload = None, kw_simulate_human_answer = sim\<rparr> st1 w1))
               = st1\<lparr>answers := Some ((case answers st1 of None \<Rightarrow> [] | Some xs \<Rightarrow> xs) @ [JStr ans])\<rparr>
           \<and> posts (snd (snd (invoke ''extract_answer'' extract_answer e
                    \<lparr>kw_input_payload = None, kw_simulate_human_answer = sim\<rparr> st1 w1)))
               = posts w1)
       \<and> (sim = None \<or> sim = Some [] \<longrightarrow>
             (\<exists>n. posts (snd (snd (invoke ''extract_answer'' extract_answer e
                      \<lparr>kw_input_payload = None, kw_simulate_human_answer = sim\<rparr> st1 w1)))
                   = posts w1 @ replicate (Suc n)
                       (MCP_ATLAS_URL e @ ''/extract_answer'', JObj (payload st1))))"
proof -
  let ?kw = "\<lparr>kw_input_payload = None, kw_simulate_human_answer = sim\<rparr>"
  let ?w0 = "logger ''INFO'' (''stage: '' @ stage_name s @ '' mode='' @ mode s) w"
  let ?lg0 = "lg @ [LStage (stage_name s) (mode s)]"
  let ?wi = "w1\<lparr>invoked := invoked w1 @ [''extract_answer'']\<rparr>"
  have look: "ABILITY_LOOKUP (name a) = Some extract_answer"
    by (simp add: assms(3) ABILITY_LOOKUP_def)
  have kw: "extra_for (name a) inp sim = ?kw"
    by (simp add: assms(3) extra_for_def)
  have "run_stage e inp sim s st lg w = run_sequential e inp sim (pre @ a # rest) st ?lg0 ?w0"
    using assms(1,2) by (simp add: run_stage_def Let_def)
  also have "\<dots> = run_sequential e inp sim (a # rest) st1 lg1 w1"
    using assms(4) by (simp add: run_sequential_append)
  also have "\<dots> = (case invoke ''extract_answer'' extract_answer e ?kw st1 w1 of
              (Inl err, st2, w2) \<Rightarrow> (Some err, st2, lg1 @ [LAbility ''extract_answer''], w2)
            | (Inr res, st2, w2) \<Rightarrow>
                run_sequential e inp sim rest st2 (lg1 @ [LAbility ''extract_answer'', LRes res]) w2)"
    using look kw by (simp add: assms(3) split: prod.splits sum.splits)
  finally have tie: "run_stage e inp sim s st lg w =
           (case invoke ''extract_answer'' extract_answer e ?kw st1 w1 of
              (Inl err, st2, w2) \<Rightarrow> (Some err, st2, lg1 @ [LAbility ''extract_answer''], w2)
            | (Inr res, st2, w2) \<Rightarrow>
                run_sequential e inp sim rest st2 (lg1 @ [LAbility ''extract_answer'', LRes res]) w2)" .
  have given: "fst (invoke ''extract_answer'' extract_answer e ?kw st1 w1)
               = Inr (Res (JObj [(''status'', JStr ''ok''), (''answer'', JStr ans)]))
           \<and> fst (snd (invoke ''extract_answer'' extract_answer e ?kw st1 w1))
               = st1\<lparr>answers := Some ((case answers st1 of None \<Rightarrow> [] | Some xs \<Rightarrow> xs) @ [JStr ans])\<rparr>
           \<and> posts (snd (snd (invoke ''extract_answer'' extract_answer e ?kw st1 w1))) = posts w1"
    if "sim = Some ans \<and> ans \<noteq> []" for ans
    using that
    by (simp add: invoke_def extract_answer_def Let_def dict_get_def or_none_def logger_def)
  have absent: "\<exists>n. posts (snd (snd (invoke ''extract_answer'' extract_answer e ?kw st1 w1)))
                   = posts w1 @ replicate (Suc n)
                       (MCP_ATLAS_URL e @ ''/extract_answer'', JObj (payload st1))"
    if "sim = None \<or> sim = Some []"
  proof -
    have "posts (snd (snd (invoke ''extract_answer'' extract_answer e ?kw st1 w1)))
            = posts (snd (atlas_client e ''extract_answer'' (JObj (payload st1)) ?wi))"
      using that
      by (auto simp: invoke_def extract_answer_def Let_def logger_def split: prod.splits sum.splits)
    with atlas_client_posts [of e "''extract_answer''" "JObj (payload st1)" ?wi] show ?thesis
      by simp
  qed
  from tie given absent show ?thesis by blast
qed

theorem extract_answer_simulated_witness:
  "(mode (STAGE_CONFIG ! 4) = ''deterministic'' \<or> mode (STAGE_CONFIG ! 4) = ''human'')
   \<and> fst (snd (invoke ''extract_answer'' extract_answer (test_env net_answer)
        \<lparr>kw_input_payload = None,
          kw_simulate_human_answer = Some ''INV-9876, check billing cycle''\<rparr>
        (initial_state ticket_payload)
        (logger ''INFO'' (''stage: '' @ ''WAIT'' @ '' mode='' @ ''deterministic'') world0)))
       = (initial_state ticket_payload)\<lparr>answers := Some [JStr ''INV-9876, check billing cycle'']\<rparr>
   \<and> posts (snd (snd (invoke ''extract_answer'' extract_answer (test_env net_answer)
        \<lparr>kw_input_payload = None,
          kw_simulate_human_answer = Some ''INV-9876, check billing cycle''\<rparr>
        (initial_state ticket_payload)
        (logger ''INFO'' (''stage: '' @ ''WAIT'' @ '' mode='' @ ''deterministic'') world0)))) = []
   \<and> answers (fst (snd (run_stage (test_env net_answer) ticket_payload
        (Some ''INV-9876, check billing cycle'') (STAGE_CONFIG ! 4)
        (initial_state ticket_payload) [] world0)))
       = Some [JStr ''INV-9876, check billing cycle'']"
proof -
  let ?s = "STAGE_CONFIG ! 4"
  let ?sim = "Some ''INV-9876, check billing cycle''"
  let ?a = "ability ''extract_answer'' ''ATLAS'' ''Extract answer''"
  let ?b = "ability ''store_answer'' ''COMMON'' ''Store answer''"
  let ?w0 = "logger ''INFO'' (''stage: '' @ stage_name ?s @ '' mode='' @ mode ?s) world0"
  have sc: "?s = stage ''WAIT'' ''deterministic'' [?a, ?b] None"
    by (simp add: STAGE_CONFIG_def)
  have m: "mode ?s = ''deterministic'' \<or> mode ?s = ''human''"
    by (simp add: sc stage_def)
  have ab: "abilities ?s = [] @ ?a # [?b]"
    by (simp add: sc stage_def)
  have nm: "name ?a = ''extract_answer''"
    by (simp add: ability_def)
  have pre: "run_sequential (test_env net_answer) ticket_payload ?sim [] (initial_state ticket_payload)
               ([] @ [LStage (stage_name ?s) (mode ?s)]) ?w0
             = (None, initial_state ticket_payload, [LStage (stage_name ?s) (mode ?s)], ?w0)"
    by simp
  note inst = extract_answer_simulated [OF m ab nm pre]
  let ?I = "invoke ''extract_answer'' extract_answer (test_env net_answer)
              \<lparr>kw_input_payload = None, kw_simulate_human_answer = ?sim\<rparr>
              (initial_state ticket_payload) ?w0"
  from inst have parts: "fst ?I = Inr (Res (JObj [(''status'', JStr ''ok''),
                                         (''answer'', JStr ''INV-9876, check billing cycle'')]))
      \<and> fst (snd ?I) = (initial_state ticket_payload)\<lparr>answers :=
             Some ((case answers (initial_state ticket_payload) of None \<Rightarrow> [] | Some xs \<Rightarrow> xs)
                   @ [JStr ''INV-9876, check billing cycle''])\<rparr>
      \<and> posts (snd (snd ?I)) = posts ?w0"
    by blast
  then have a: "fst (snd ?I) = (initial_state ticket_payload)\<lparr>answers :=
                   Some [JStr ''INV-9876, check billing cycle'']\<rparr>"
    and b: "posts (snd (snd ?I)) = []"
    by (simp_all add: initial_state_def logger_def world0_def)
  have c: "answers (fst (snd (run_stage (test_env net_answer) ticket_payload ?sim ?s
        (initial_state ticket_payload) [] world0))) = Some [JStr ''INV-9876, check billing cycle'']"
    by code_simp
  from m a b c show ?thesis
    by (simp add: sc stage_def)
qed

text \<open>
  C6 (as stated) fails twice. A run of the WAIT stage given the empty string as
  simulated answer calls the capability service and records the service's answer. And a
  run whose stage list holds \<open>extract_answer\<close> in a non-deterministic stage with another
  rule than \<open>score_then_maybe_escalate\<close>, given a non-empty simulated answer, does the
  same: that branch of the engine passes no keyword argument.
\<close>

theorem simulated_answer_ignored_counterexample:
  "(case run (test_env net_answer) [STAGE_CONFIG ! 4] ticket_payload (Some []) world0 of
      (Inl err, w) \<Rightarrow> False
    | (Inr (final, lg), w) \<Rightarrow>
        posts w = [(''http://atlas/extract_answer'', JObj ticket_payload)]
        \<and> answers final = Some [JStr ''from service''])
   \<and> (case run (test_env net_answer) fallback_wait ticket_payload
             (Some ''INV-9876, check billing cycle'') world0 of
        (Inl err, w) \<Rightarrow> False
      | (Inr (final, lg), w) \<Rightarrow>
          posts w = [(''http://atlas/extract_answer'', JObj ticket_payload)]
          \<and> answers final = Some [JStr ''from service''])"
  by code_simp

section \<open>The run follows its handlers\<close>




















section \<open>Two readings of the model\<close>

text \<open>
  \<open>dict.update\<close> with values that are not mappings: the empty list and the empty string
  change nothing, a list of pairs is stored (a two-character string is a pair), a longer
  string raises \<open>ValueError\<close>, \<open>None\<close> raises \<open>TypeError\<close>, and the pairs before a bad
  element stay.
\<close>

lemma py_update_examples:
  "py_update [] (JList []) = (None, [])"
  "py_update [] (JStr []) = (None, [])"
  "py_update [] (JList [JList [JStr ''tier'', JInt 1], JStr ''ab''])
     = (None, [(JStr ''tier'', JInt 1), (JStr ''a'', JStr ''b'')])"
  "py_update [] (JStr ''abc'') = (Some ValueError, [])"
  "py_update [] JNull = (Some TypeError, [])"
  "py_update [] (JList [JList [JBool True, JInt 1], JList [JInt 1, JInt 2], JInt 5])
     = (Some TypeError, [(JBool True, JInt 2)])"
  by (simp_all add: py_update_def as_pair_def)

text \<open>
  An audit entry shows what is written to the decision after it was taken: with the
  escalation run after \<open>update_payload\<close>, the one entry of the final state reads the
  assignee.
\<close>

lemma audit_entry_is_live:
  "(case fst (run (test_env net_ok) audit_then_escalate ticket_payload None world0) of
      Inl err \<Rightarrow> False
    | Inr (final, lg) \<Rightarrow>
        audit final = Some [(Live, 0)]
        \<and> audit_view final = [(\<lparr>score = Some 70, escalated_to = Some (JStr ''agent-7'')\<rparr>, 0)])"
  by code_simp

end
